theory Spec2Isabelle
  imports
    Complex_Main
    "HOL-Library.AList"
    "HOL-Library.Multiset"
    "HOL-Library.Char_ord"
    "HOL-Library.List_Lexorder"
    "HOL-Library.Log_Nat"
begin

section \<open>Data model\<close>

text \<open>
  A JavaScript object with string keys is an association list: its own properties in
  enumeration order. Reading \<open>o[k]\<close> is \<open>map_of o k\<close> (\<open>None\<close> is
  \<open>undefined\<close>), assigning \<open>o[k] = v\<close> is \<open>AList.update k v o\<close> (an existing
  key keeps its place, a new key is appended). Strings are ASCII. Numbers that count
  tables are integers (exact in a double below \<open>2 ^ 53\<close>). Inherited properties of
  \<open>Object.prototype\<close> and the special place of integer-like keys in the
  enumeration order are not part of the model; no statement below depends on the
  order of the keys of a mapping. Where a parameter has a default value the functions
  take the value itself (\<open>getRecommendations\<close>, whose default the specification
  names, takes an option).

  \<^verbatim>\<open>
  export interface AvailabilityData {
    [restaurantId: string]: { [date: string]: { [time: string]: number } };
  }
  export interface TimeSlot { time: string; available_tables: number; }
  \<close>
\<close>

type_synonym 'v obj = "(string \<times> 'v) list"

type_synonym SlotCounts = "int obj"

type_synonym DateSlots = "SlotCounts obj"

type_synonym AvailabilityData = "DateSlots obj"

record TimeSlot =
  time :: string
  available_tables :: int

section \<open>Numbers\<close>

text \<open>
  A JavaScript number is an IEEE 754 double: \<open>NaN\<close>, one of the two infinities, or a
  finite value. A finite double is represented by the real number it denotes; the two
  zeros are one value here, since no operation of the functions modelled below tells
  them apart (nothing divides, and \<open>Math.max\<close> gets the positive zero as its other
  argument).

  Every arithmetic operation gives the exact result rounded to the nearest double,
  ties to the even significand. For a positive real \<open>a\<close> in the binade
  \<open>2 ^ e \<le> a < 2 ^ (e + 1)\<close> the doubles around it are the multiples of
  \<open>2 ^ (e - 52)\<close>, and of \<open>2 ^ - 1074\<close> in the subnormal range; a result of
  magnitude \<open>2 ^ 1024\<close> or more is an infinity.
\<close>

datatype number = NaN | NegInfinity | PosInfinity | Finite real

definition roundHalfEven :: "real \<Rightarrow> int" where
  "roundHalfEven x =
     (let f = \<lfloor>x\<rfloor>; r = x - of_int f
      in if r < 1 / 2 then f else if 1 / 2 < r then f + 1 else if even f then f else f + 1)"

definition binade :: "real \<Rightarrow> int" where
  "binade x = (if 1 \<le> x then bitlen \<lfloor>x\<rfloor> - 1 else - bitlen (\<lceil>1 / x\<rceil> - 1))"

definition quantum :: "real \<Rightarrow> int" where
  "quantum a = max (binade a - 52) (- 1074)"

definition nearest :: "real \<Rightarrow> real" where
  "nearest a = of_int (roundHalfEven (a / 2 powi quantum a)) * 2 powi quantum a"

definition toDouble :: "real \<Rightarrow> number" where
  "toDouble x =
     (if x = 0 then Finite 0
      else if 2 ^ 1024 \<le> nearest \<bar>x\<bar> then (if 0 < x then PosInfinity else NegInfinity)
      else Finite (if 0 < x then nearest \<bar>x\<bar> else - nearest \<bar>x\<bar>))"

text \<open>The real numbers that are doubles.\<close>

definition isDouble :: "real \<Rightarrow> bool" where
  "isDouble x \<longleftrightarrow> toDouble x = Finite x"

text \<open>
  The operators \<open>-x\<close>, \<open>x + y\<close>, \<open>x - y\<close>, \<open>x * y\<close> and \<open>x < y\<close> on numbers
  (ECMA-262, Number::unaryMinus, add, subtract, multiply, lessThan), and
  \<open>Math.max\<close> of two numbers, \<open>Math.abs\<close> and \<open>Math.floor\<close>. A comparison with
  \<open>NaN\<close> is false.
\<close>

fun numNegate :: "number \<Rightarrow> number" where
  "numNegate NaN = NaN"
| "numNegate NegInfinity = PosInfinity"
| "numNegate PosInfinity = NegInfinity"
| "numNegate (Finite x) = Finite (- x)"

fun numAdd :: "number \<Rightarrow> number \<Rightarrow> number" where
  "numAdd (Finite x) (Finite y) = toDouble (x + y)"
| "numAdd NaN y = NaN"
| "numAdd x NaN = NaN"
| "numAdd PosInfinity NegInfinity = NaN"
| "numAdd NegInfinity PosInfinity = NaN"
| "numAdd PosInfinity y = PosInfinity"
| "numAdd x PosInfinity = PosInfinity"
| "numAdd NegInfinity y = NegInfinity"
| "numAdd x NegInfinity = NegInfinity"

definition numSub :: "number \<Rightarrow> number \<Rightarrow> number" where
  "numSub x y = numAdd x (numNegate y)"

fun numSign :: "number \<Rightarrow> int" where
  "numSign NaN = 0"
| "numSign NegInfinity = - 1"
| "numSign PosInfinity = 1"
| "numSign (Finite x) = (if x < 0 then - 1 else if x = 0 then 0 else 1)"

fun numMul :: "number \<Rightarrow> number \<Rightarrow> number" where
  "numMul (Finite x) (Finite y) = toDouble (x * y)"
| "numMul NaN y = NaN"
| "numMul x NaN = NaN"
| "numMul x y =
     (if numSign x * numSign y = 0 then NaN
      else if 0 < numSign x * numSign y then PosInfinity else NegInfinity)"

fun numLess :: "number \<Rightarrow> number \<Rightarrow> bool" where
  "numLess (Finite x) (Finite y) = (x < y)"
| "numLess (Finite x) PosInfinity = True"
| "numLess NegInfinity (Finite y) = True"
| "numLess NegInfinity PosInfinity = True"
| "numLess x y = False"

definition mathMax :: "number \<Rightarrow> number \<Rightarrow> number" where
  "mathMax x y = (if x = NaN \<or> y = NaN then NaN else if numLess x y then y else x)"

fun mathAbs :: "number \<Rightarrow> number" where
  "mathAbs NaN = NaN"
| "mathAbs NegInfinity = PosInfinity"
| "mathAbs PosInfinity = PosInfinity"
| "mathAbs (Finite x) = Finite \<bar>x\<bar>"

fun mathFloor :: "number \<Rightarrow> number" where
  "mathFloor (Finite x) = Finite (of_int \<lfloor>x\<rfloor>)"
| "mathFloor x = x"

text \<open>The rounding as one function of the sign and the magnitude.\<close>

definition signedNearest :: "real \<Rightarrow> real" where
  "signedNearest x = (if x = 0 then 0 else if 0 < x then nearest x else - nearest (- x))"

section \<open>Values and the host\<close>

text \<open>
  The values of the language: the primitives, a reference \<open>Ref a\<close> to an object the
  program itself has built (an address in the heap of the section on bookings), and
  \<open>HostObject i\<close> for an object of the host: a built-in function, a prototype.

  What the program does not own belongs to the host, and is a parameter:
  \<^item> \<open>inheritedProperty host k\<close> is what reading \<open>o[k]\<close> gives on a plain object
    \<open>o\<close> that has no own property \<open>k\<close>: the property found on the prototype chain
    (\<open>Object.prototype\<close>), \<open>Undefined\<close> when there is none;
  \<^item> \<open>assignInherited host k\<close> says what the assignment \<open>o[k] = x\<close> of a number or a
    new plain object does on such an object: it creates the own property (no inherited
    property of that name, or a writable one), it calls an inherited setter and creates
    nothing (\<open>__proto__\<close>), or it is rejected with a \<open>TypeError\<close> (strict code, an
    inherited property that cannot be written);
  \<^item> \<open>hostProperty host v k\<close> is \<open>v[k]\<close> for a value that is neither \<open>undefined\<close>
    nor \<open>null\<close> nor an object of the program: a property of a host object, or of the
    wrapper of a primitive; a getter may throw;
  \<^item> \<open>assignHostProperty host v k x\<close> is \<open>v[k] = x\<close> on such a value: it throws, or
    it succeeds and changes at most the host object;
  \<^item> \<open>hostToNumber host v\<close> is the conversion of an object to a number (through its
    \<open>valueOf\<close> and \<open>toString\<close>, which may throw);
  \<^item> \<open>utcOffset host t\<close> and \<open>localOffset host t\<close> are the offset of the local time
    zone in milliseconds at the UTC time \<open>t\<close> and at the local time \<open>t\<close>
    (ECMA-262, LocalTime and UTC), and \<open>dateParse host s\<close> is the time value of
    \<open>new Date(s)\<close>, \<open>None\<close> for the Invalid Date.
\<close>

datatype jsvalue =
  Undefined | Null | Boolean bool | Number number | String string | Ref nat | HostObject nat

datatype error = TypeError | RangeError

datatype assignment = CreatesOwn | CallsSetter | Rejected

record host =
  inheritedProperty :: "string \<Rightarrow> jsvalue"
  assignInherited :: "string \<Rightarrow> assignment"
  hostProperty :: "jsvalue \<Rightarrow> string \<Rightarrow> error + jsvalue"
  assignHostProperty :: "jsvalue \<Rightarrow> string \<Rightarrow> jsvalue \<Rightarrow> error + unit"
  hostToNumber :: "jsvalue \<Rightarrow> error + number"
  utcOffset :: "int \<Rightarrow> int"
  localOffset :: "int \<Rightarrow> int"
  dateParse :: "string \<Rightarrow> int option"

text \<open>
  \<open>undefined\<close> and \<open>null\<close> are the nullish values (\<open>?.\<close> and \<open>??\<close> ask for them);
  \<open>truthy\<close> is the conversion to a boolean (of \<open>!x\<close>, \<open>x || y\<close>, \<open>x && y\<close>); a
  table count as a value; and the sequencing of two steps of which the first may throw.
\<close>

definition nullish :: "jsvalue \<Rightarrow> bool" where
  "nullish v \<longleftrightarrow> v = Undefined \<or> v = Null"

fun truthy :: "jsvalue \<Rightarrow> bool" where
  "truthy Undefined = False"
| "truthy Null = False"
| "truthy (Boolean b) = b"
| "truthy (Number n) = (n \<noteq> NaN \<and> n \<noteq> Finite 0)"
| "truthy (String s) = (s \<noteq> [])"
| "truthy (Ref a) = True"
| "truthy (HostObject i) = True"

definition countValue :: "int \<Rightarrow> jsvalue" where
  "countValue n = Number (Finite (of_int n))"

definition andThen :: "error + 'a \<Rightarrow> ('a \<Rightarrow> error + 'b) \<Rightarrow> error + 'b" where
  "andThen r f = (case r of Inl e \<Rightarrow> Inl e | Inr x \<Rightarrow> f x)"

section \<open>Strings as numbers\<close>

text \<open>
  A string is a list of code units below 256. \<open>s.split(c)\<close> cuts a string at every
  occurrence of the separator and always gives at least one piece.
\<close>

fun split_on :: "char \<Rightarrow> string \<Rightarrow> string list" where
  "split_on sep [] = [[]]"
| "split_on sep (c # cs) =
     (if c = sep then [] # split_on sep cs
      else (case split_on sep cs of [] \<Rightarrow> [[c]] | p # ps \<Rightarrow> (c # p) # ps))"

definition isDigit :: "char \<Rightarrow> bool" where
  "isDigit c = (c \<in> set ''0123456789'')"

definition digitValue :: "char \<Rightarrow> int" where
  "digitValue c = int (of_char c) - 48"

definition decimal :: "string \<Rightarrow> int" where
  "decimal s = foldl (\<lambda>n c. 10 * n + digitValue c) 0 s"

text \<open>
  \<open>Number(s)\<close> on a string (ECMA-262, StringToNumber): white space around the text is
  dropped (tab, line feed, vertical tab, form feed, carriage return, space and
  no-break space are the white space below 256); the empty text is \<open>0\<close>; the text is
  otherwise a binary, octal or hexadecimal integer with its prefix and no sign, or a
  decimal literal with an optional sign (\<open>Infinity\<close>, or digits with an optional
  fraction and an optional exponent, at least one digit before the exponent);
  everything else is \<open>NaN\<close>. The value is the number written, rounded to the nearest
  double (as V8 does for a literal of any length).
\<close>

definition isWhiteSpace :: "char \<Rightarrow> bool" where
  "isWhiteSpace c \<longleftrightarrow> of_char c \<in> {9, 10, 11, 12, 13, 32, 160 :: nat}"

definition trim :: "string \<Rightarrow> string" where
  "trim s = rev (dropWhile isWhiteSpace (rev (dropWhile isWhiteSpace s)))"

definition radixDigit :: "char \<Rightarrow> nat option" where
  "radixDigit c =
     map_of (zip ''0123456789abcdefABCDEF''
               [0, 1, 2, 3, 4, 5, 6, 7, 8, 9, 10, 11, 12, 13, 14, 15, 10, 11, 12, 13, 14, 15]) c"

definition radixLiteral :: "nat \<Rightarrow> string \<Rightarrow> real option" where
  "radixLiteral r ds =
     (if ds \<noteq> [] \<and> list_all (\<lambda>c. case radixDigit c of None \<Rightarrow> False | Some v \<Rightarrow> v < r) ds
      then Some (of_nat (foldl (\<lambda>n c. r * n + (case radixDigit c of None \<Rightarrow> 0 | Some v \<Rightarrow> v)) 0 ds))
      else None)"

definition digitsValue :: "string \<Rightarrow> int option" where
  "digitsValue ds = (if ds \<noteq> [] \<and> list_all isDigit ds then Some (decimal ds) else None)"

definition exponentPart :: "string \<Rightarrow> int option" where
  "exponentPart s =
     (case s of
        [] \<Rightarrow> Some 0
      | c # rest \<Rightarrow>
          if c = CHR ''e'' \<or> c = CHR ''E''
          then (case rest of
                  [] \<Rightarrow> None
                | sg # ds \<Rightarrow>
                    if sg = CHR ''+'' then digitsValue ds
                    else if sg = CHR ''-'' then map_option uminus (digitsValue ds)
                    else digitsValue rest)
          else None)"

definition unsignedDecimal :: "string \<Rightarrow> real option" where
  "unsignedDecimal s =
     (let whole = takeWhile isDigit s;
          afterWhole = dropWhile isDigit s;
          fraction = (case afterWhole of
                        [] \<Rightarrow> []
                      | c # t \<Rightarrow> if c = CHR ''.'' then takeWhile isDigit t else []);
          afterFraction = (case afterWhole of
                             [] \<Rightarrow> []
                           | c # t \<Rightarrow> if c = CHR ''.'' then dropWhile isDigit t else afterWhole)
      in if whole = [] \<and> fraction = [] then None
         else (case exponentPart afterFraction of
                 None \<Rightarrow> None
               | Some e \<Rightarrow> Some (of_int (decimal (whole @ fraction)) * 10 powi (e - int (length fraction)))))"

definition decimalLiteral :: "string \<Rightarrow> number" where
  "decimalLiteral s =
     (if s = ''Infinity'' then PosInfinity
      else (case unsignedDecimal s of None \<Rightarrow> NaN | Some x \<Rightarrow> toDouble x))"

definition numericLiteral :: "string \<Rightarrow> number" where
  "numericLiteral t =
     (case t of
        [] \<Rightarrow> Finite 0
      | c # rest \<Rightarrow>
          if c = CHR ''+'' then decimalLiteral rest
          else if c = CHR ''-'' then numNegate (decimalLiteral rest)
          else (case rest of
                  [] \<Rightarrow> decimalLiteral t
                | p # ds \<Rightarrow>
                    if c = CHR ''0'' \<and> (p = CHR ''x'' \<or> p = CHR ''X'')
                    then (case radixLiteral 16 ds of None \<Rightarrow> NaN | Some x \<Rightarrow> toDouble x)
                    else if c = CHR ''0'' \<and> (p = CHR ''o'' \<or> p = CHR ''O'')
                    then (case radixLiteral 8 ds of None \<Rightarrow> NaN | Some x \<Rightarrow> toDouble x)
                    else if c = CHR ''0'' \<and> (p = CHR ''b'' \<or> p = CHR ''B'')
                    then (case radixLiteral 2 ds of None \<Rightarrow> NaN | Some x \<Rightarrow> toDouble x)
                    else decimalLiteral t))"

definition stringToNumber :: "string \<Rightarrow> number" where
  "stringToNumber s = numericLiteral (trim s)"

text \<open>
  The conversion of a value to a number (ECMA-262, ToNumber); the conversion of an
  object is the host's.
\<close>

definition valueToNumber :: "host \<Rightarrow> jsvalue \<Rightarrow> error + number" where
  "valueToNumber host v =
     (case v of
        Undefined \<Rightarrow> Inr NaN
      | Null \<Rightarrow> Inr (Finite 0)
      | Boolean b \<Rightarrow> Inr (Finite (if b then 1 else 0))
      | Number n \<Rightarrow> Inr n
      | String s \<Rightarrow> Inr (stringToNumber s)
      | Ref a \<Rightarrow> hostToNumber host v
      | HostObject i \<Rightarrow> hostToNumber host v)"

section \<open>Availability queries\<close>

text \<open>
  \<^verbatim>\<open>
  export function checkAvailability(availability, restaurantId, date, time): number | null {
    return availability[restaurantId]?.[date]?.[time] ?? null;
  }
  \<close>
  A property read looks at the own properties first and at the prototype chain then.
  As long as the keys are own keys of the mapping the walk stays in the mapping; with
  the first key that is not, it goes on in the host, from the inherited value.
  \<open>v?.[k]\<close> gives \<open>undefined\<close> for a nullish \<open>v\<close> and reads the property
  otherwise; \<open>x ?? null\<close> turns a nullish \<open>x\<close> into \<open>null\<close> and leaves every other
  value, the number \<open>0\<close> included. The result \<open>Inl e\<close> is the exception \<open>e\<close> thrown.
\<close>

fun optionalChain :: "host \<Rightarrow> jsvalue \<Rightarrow> string list \<Rightarrow> error + jsvalue" where
  "optionalChain host v [] = Inr v"
| "optionalChain host v (k # ks) =
     (if nullish v then Inr Undefined
      else andThen (hostProperty host v k) (\<lambda>w. optionalChain host w ks))"

definition orNull :: "jsvalue \<Rightarrow> jsvalue" where
  "orNull x = (if nullish x then Null else x)"

definition checkAvailability ::
  "host \<Rightarrow> AvailabilityData \<Rightarrow> string \<Rightarrow> string \<Rightarrow> string \<Rightarrow> error + jsvalue" where
  "checkAvailability host availability restaurantId date tm =
     (case map_of availability restaurantId of
        None \<Rightarrow>
          andThen (optionalChain host (inheritedProperty host restaurantId) [date, tm])
            (\<lambda>x. Inr (orNull x))
      | Some dates \<Rightarrow>
          (case map_of dates date of
             None \<Rightarrow>
               andThen (optionalChain host (inheritedProperty host date) [tm]) (\<lambda>x. Inr (orNull x))
           | Some slots \<Rightarrow>
               (case map_of slots tm of
                  None \<Rightarrow> Inr (orNull (inheritedProperty host tm))
                | Some tables \<Rightarrow> Inr (countValue tables))))"

text \<open>
  The generator script has its own copy, with explicit early returns; \<open>!x\<close> asks
  whether \<open>x\<close> is falsy (an object of the mapping never is):
  \<^verbatim>\<open>
  function checkAvailability(availabilityData, restaurantId, date, time) {
    if (!availabilityData[restaurantId]) { return null; }
    if (!availabilityData[restaurantId][date]) { return null; }
    return availabilityData[restaurantId][date][time] ?? null;
  }
  \<close>
\<close>

definition checkAvailability_gen ::
  "host \<Rightarrow> AvailabilityData \<Rightarrow> string \<Rightarrow> string \<Rightarrow> string \<Rightarrow> error + jsvalue" where
  "checkAvailability_gen host availabilityData restaurantId date tm =
     (case map_of availabilityData restaurantId of
        None \<Rightarrow>
          (let v = inheritedProperty host restaurantId
           in if \<not> truthy v then Inr Null
              else andThen (hostProperty host v date)
                     (\<lambda>w. if \<not> truthy w then Inr Null
                          else andThen (hostProperty host w tm) (\<lambda>x. Inr (orNull x))))
      | Some dates \<Rightarrow>
          (case map_of dates date of
             None \<Rightarrow>
               (let w = inheritedProperty host date
                in if \<not> truthy w then Inr Null
                   else andThen (hostProperty host w tm) (\<lambda>x. Inr (orNull x)))
           | Some slots \<Rightarrow>
               (case map_of slots tm of
                  None \<Rightarrow> Inr (orNull (inheritedProperty host tm))
                | Some tables \<Rightarrow> Inr (countValue tables))))"

text \<open>
  \<open>Array.prototype.sort\<close> is stable (ECMAScript 2019). For a comparator that orders
  consistently the result is the one a stable insertion sort gives, whatever algorithm
  the engine runs. The argument \<open>le a b\<close> says that the comparator's value on
  \<open>(a, b)\<close> is not positive (a \<open>NaN\<close> value counts as \<open>0\<close>).
\<close>

fun insort_by :: "('a \<Rightarrow> 'a \<Rightarrow> bool) \<Rightarrow> 'a \<Rightarrow> 'a list \<Rightarrow> 'a list" where
  "insort_by le x [] = [x]"
| "insort_by le x (y # ys) = (if le x y then x # y # ys else y # insort_by le x ys)"

definition sort_by :: "('a \<Rightarrow> 'a \<Rightarrow> bool) \<Rightarrow> 'a list \<Rightarrow> 'a list" where
  "sort_by le xs = foldr (insort_by le) xs []"

text \<open>
  \<open>xs.slice(0, e)\<close>: a negative \<open>e\<close> counts from the end of the array.
\<close>

definition slice0 :: "int \<Rightarrow> 'a list \<Rightarrow> 'a list" where
  "slice0 e xs =
     (let len = int (length xs);
          final = (if e < 0 then max (len + e) 0 else min e len)
      in take (nat final) xs)"




text \<open>
  \<^verbatim>\<open>
  export function timeToMinutes(time: string): number {
    const [hours, minutes] = time.split(':').map(Number);
    return hours * 60 + minutes;
  }
  \<close>
  \<open>Number\<close> is modelled on strings of decimal digits, where it is the decimal value
  (and \<open>0\<close> on the empty string). Every other string gives \<open>None\<close>, which stands for
  \<open>NaN\<close>: numeric literals with a sign, a fraction, an exponent, a radix prefix or
  surrounding white space are outside the model. A missing second piece is
  \<open>undefined\<close>, and the sum is \<open>NaN\<close>.
\<close>

definition toNumber :: "string \<Rightarrow> int option" where
  "toNumber s = (if list_all isDigit s then Some (decimal s) else None)"

definition timeToMinutes :: "string \<Rightarrow> int option" where
  "timeToMinutes tm =
     (case map toNumber (split_on CHR '':'' tm) of
        Some hours # Some minutes # _ \<Rightarrow> Some (hours * 60 + minutes)
      | _ \<Rightarrow> None)"




text \<open>
  \<^verbatim>\<open>
  export function checkMultipleRestaurants(availability, restaurantIds, date, time, minTables = 1)
      : { restaurantId: string; available: boolean; tables: number }[] {
    return restaurantIds.map(restaurantId => {
      const tables = checkAvailability(availability, restaurantId, date, time) || 0;
      return { restaurantId, available: tables >= minTables, tables };
    });
  }
  \<close>
  \<open>x || 0\<close> is \<open>0\<close> when \<open>x\<close> is falsy (\<open>null\<close> and the number \<open>0\<close> are), and
  \<open>x\<close> otherwise. \<open>x >= m\<close> against a number converts \<open>x\<close> to a number and is false
  when either side is \<open>NaN\<close>. \<open>map\<close> calls the function on the ids in order, and an
  exception ends it.
\<close>

record RestaurantCheck =
  restaurantId :: string
  available :: bool
  tables :: jsvalue

definition orZero :: "jsvalue \<Rightarrow> jsvalue" where
  "orZero x = (if truthy x then x else countValue 0)"



section \<open>Dates and booking validation\<close>

text \<open>
  \<^verbatim>\<open>
  export function parseDate(dateString: string): Date {
    return new Date(dateString + 'T00:00:00');
  }
  export function isDateInPast(dateString: string): boolean {
    const date = parseDate(dateString);
    const today = new Date();
    today.setHours(0, 0, 0, 0);
    return date < today;
  }
  \<close>
  A date-time string without an offset is local time, so \<open>parseDate\<close> gives the
  local midnight of a calendar day; \<open>today\<close> is the local midnight of the clock's
  day. Two local midnights compare as their calendar days do, so a \<open>Date\<close> is
  modelled by its calendar day and \<open>today\<close> is a parameter. A string that is not
  \<open>YYYY-MM-DD\<close> with a day of the calendar gives \<open>None\<close>: the \<open>Invalid Date\<close>,
  whose comparison with any date is false. (What an engine makes of other strings is
  outside the model.)
\<close>

record CalendarDate =
  year :: nat
  month :: nat
  day :: nat

definition isLeapYear :: "nat \<Rightarrow> bool" where
  "isLeapYear y \<longleftrightarrow> (y mod 4 = 0 \<and> y mod 100 \<noteq> 0) \<or> y mod 400 = 0"

definition daysInMonth :: "nat \<Rightarrow> nat \<Rightarrow> nat" where
  "daysInMonth y m =
     (if m = 2 then (if isLeapYear y then 29 else 28)
      else if m = 4 \<or> m = 6 \<or> m = 9 \<or> m = 11 then 30
      else 31)"

definition parseDate :: "string \<Rightarrow> CalendarDate option" where
  "parseDate dateString =
     (case split_on CHR ''-'' dateString of
        [ys, ms, ds] \<Rightarrow>
          if length ys = 4 \<and> length ms = 2 \<and> length ds = 2
             \<and> list_all isDigit ys \<and> list_all isDigit ms \<and> list_all isDigit ds
          then
            (let y = nat (decimal ys); m = nat (decimal ms); d = nat (decimal ds)
             in if 1 \<le> m \<and> m \<le> 12 \<and> 1 \<le> d \<and> d \<le> daysInMonth y m
                then Some \<lparr>year = y, month = m, day = d\<rparr>
                else None)
          else None
      | _ \<Rightarrow> None)"

definition dateBefore :: "CalendarDate \<Rightarrow> CalendarDate \<Rightarrow> bool" where
  "dateBefore a b \<longleftrightarrow>
     year a < year b
     \<or> (year a = year b \<and> (month a < month b \<or> (month a = month b \<and> day a < day b)))"

definition isDateInPast :: "CalendarDate \<Rightarrow> string \<Rightarrow> bool" where
  "isDateInPast today dateString =
     (case parseDate dateString of
        None \<Rightarrow> False
      | Some date \<Rightarrow> dateBefore date today)"

text \<open>
  The regular expression \<open>/^\d{2}:\d{2}$/\<close>: anchored at both ends, so the whole
  string is matched atom by atom; \<open>\d\<close> is an ASCII digit.
\<close>

datatype atom = Digit | Literal char

fun atomMatches :: "atom \<Rightarrow> char \<Rightarrow> bool" where
  "atomMatches Digit c = isDigit c"
| "atomMatches (Literal l) c = (c = l)"

fun regexTest :: "atom list \<Rightarrow> string \<Rightarrow> bool" where
  "regexTest [] [] = True"
| "regexTest (a # as) (c # cs) = (atomMatches a c \<and> regexTest as cs)"
| "regexTest _ _ = False"

definition timeFormat :: "atom list" where
  "timeFormat = [Digit, Digit, Literal CHR '':'', Digit, Digit]"

text \<open>
  \<^verbatim>\<open>
  export function validateBooking(date: string, time: string, partySize: number)
      : { valid: boolean; errors: string[] } {
    const errors: string[] = [];
    if (isDateInPast(date)) { errors.push('Cannot book for a past date'); }
    if (partySize < 1) { errors.push('Party size must be at least 1'); }
    if (partySize > 20) {
      errors.push('Party size cannot exceed 20. Please contact restaurant directly for large groups');
    }
    if (!/^\d{2}:\d{2}$/.test(time)) { errors.push('Invalid time format. Use HH:MM'); }
    return { valid: errors.length === 0, errors };
  }
  \<close>
\<close>

record Validation =
  valid :: bool
  errors :: "string list"

definition validateBooking :: "CalendarDate \<Rightarrow> string \<Rightarrow> string \<Rightarrow> int \<Rightarrow> Validation" where
  "validateBooking today date tm partySize =
     (let e0 = [];
          e1 = (if isDateInPast today date then e0 @ [''Cannot book for a past date''] else e0);
          e2 = (if partySize < 1 then e1 @ [''Party size must be at least 1''] else e1);
          e3 = (if partySize > 20
                then e2 @ [''Party size cannot exceed 20. Please contact restaurant directly for large groups'']
                else e2);
          e4 = (if \<not> regexTest timeFormat tm then e3 @ [''Invalid time format. Use HH:MM''] else e3)
      in \<lparr>valid = (length e4 = 0), errors = e4\<rparr>)"

section \<open>Applying a booking to the availability\<close>

text \<open>
  \<open>updateAvailabilityAfterBooking\<close> clones the caller's mapping and writes into
  the clone, so what it promises depends on which objects are shared. Objects
  therefore live in a heap here: an object is the list of its own properties, a
  reference \<open>Ref a\<close> is an index into the heap, and a new object is allocated at
  the end of the heap.
\<close>

type_synonym jsobject = "jsvalue obj"

type_synonym heap = "jsobject list"

definition allocate :: "jsobject \<Rightarrow> heap \<Rightarrow> jsvalue \<times> heap" where
  "allocate ob h = (Ref (length h), h @ [ob])"

definition objectAt :: "heap \<Rightarrow> jsvalue \<Rightarrow> jsobject option" where
  "objectAt h v =
     (case v of
        Ref a \<Rightarrow> if a < length h then Some (h ! a) else None
      | _ \<Rightarrow> None)"

text \<open>
  \<open>v[k]\<close>: a \<open>TypeError\<close> on \<open>undefined\<close> and \<open>null\<close>; on an object of the heap
  the own property, and what the prototype chain gives when there is none; on every
  other value the host's answer. \<open>v?.[k]\<close> is \<open>undefined\<close> for a nullish \<open>v\<close>.
\<close>

definition getProperty :: "host \<Rightarrow> heap \<Rightarrow> jsvalue \<Rightarrow> string \<Rightarrow> error + jsvalue" where
  "getProperty host h v k =
     (if nullish v then Inl TypeError
      else (case objectAt h v of
              None \<Rightarrow> hostProperty host v k
            | Some ob \<Rightarrow>
                (case map_of ob k of
                   None \<Rightarrow> Inr (inheritedProperty host k)
                 | Some x \<Rightarrow> Inr x)))"

definition optionalProperty :: "host \<Rightarrow> heap \<Rightarrow> jsvalue \<Rightarrow> string \<Rightarrow> error + jsvalue" where
  "optionalProperty host h v k = (if nullish v then Inr Undefined else getProperty host h v k)"

text \<open>
  The assignment \<open>v[k] = x\<close>. An own property of an object of the heap is written in
  place. Without an own property \<open>k\<close> the prototype chain decides: the property is
  created, or an inherited setter takes the value and the object stays as it is, or
  the assignment throws. On a value that is not an object of the heap the host
  decides, and the heap stays as it is.
\<close>

definition putProperty :: "host \<Rightarrow> heap \<Rightarrow> jsvalue \<Rightarrow> string \<Rightarrow> jsvalue \<Rightarrow> error + heap" where
  "putProperty host h v k x =
     (if nullish v then Inl TypeError
      else (case v of
              Ref a \<Rightarrow>
                if a < length h
                then (if map_of (h ! a) k \<noteq> None then Inr (h[a := AList.update k x (h ! a)])
                      else (case assignInherited host k of
                              CreatesOwn \<Rightarrow> Inr (h[a := AList.update k x (h ! a)])
                            | CallsSetter \<Rightarrow> Inr h
                            | Rejected \<Rightarrow> Inl TypeError))
                else andThen (assignHostProperty host v k x) (\<lambda>u. Inr h)
            | _ \<Rightarrow> andThen (assignHostProperty host v k x) (\<lambda>u. Inr h)))"

text \<open>
  \<open>JSON.stringify\<close> on a value of type \<open>AvailabilityData\<close> walks the three levels
  of objects and writes their own properties in order. The JSON text is represented by
  the mapping it denotes. \<open>None\<close> says that what the reference leads to is not of
  that type (a reference to no object, a number where an object is due, or a value
  that is not an integer where a count is due): such input is outside the model.
\<close>

fun stringifyCounts :: "jsobject \<Rightarrow> SlotCounts option" where
  "stringifyCounts [] = Some []"
| "stringifyCounts ((k, v) # ps) =
     (case v of
        Number (Finite x) \<Rightarrow>
          if x = of_int \<lfloor>x\<rfloor> then map_option ((#) (k, \<lfloor>x\<rfloor>)) (stringifyCounts ps) else None
      | _ \<Rightarrow> None)"

fun stringifyDates :: "heap \<Rightarrow> jsobject \<Rightarrow> DateSlots option" where
  "stringifyDates h [] = Some []"
| "stringifyDates h ((k, v) # ps) =
     (case Option.bind (objectAt h v) stringifyCounts of
        None \<Rightarrow> None
      | Some slots \<Rightarrow> map_option ((#) (k, slots)) (stringifyDates h ps))"

fun stringifyRestaurants :: "heap \<Rightarrow> jsobject \<Rightarrow> AvailabilityData option" where
  "stringifyRestaurants h [] = Some []"
| "stringifyRestaurants h ((k, v) # ps) =
     (case Option.bind (objectAt h v) (stringifyDates h) of
        None \<Rightarrow> None
      | Some dates \<Rightarrow> map_option ((#) (k, dates)) (stringifyRestaurants h ps))"

definition stringify :: "heap \<Rightarrow> jsvalue \<Rightarrow> AvailabilityData option" where
  "stringify h v = Option.bind (objectAt h v) (stringifyRestaurants h)"

text \<open>
  \<open>JSON.parse\<close> builds a new object for every object of the text, innermost first,
  each property an own property (also one called \<open>__proto__\<close>).
\<close>

definition parseCounts :: "SlotCounts \<Rightarrow> heap \<Rightarrow> jsvalue \<times> heap" where
  "parseCounts slots h = allocate (map (\<lambda>(k, n). (k, countValue n)) slots) h"

fun parseDateProps :: "DateSlots \<Rightarrow> heap \<Rightarrow> jsobject \<times> heap" where
  "parseDateProps [] h = ([], h)"
| "parseDateProps ((k, slots) # rest) h =
     (let (v, h1) = parseCounts slots h;
          (ps, h2) = parseDateProps rest h1
      in ((k, v) # ps, h2))"

definition parseDates :: "DateSlots \<Rightarrow> heap \<Rightarrow> jsvalue \<times> heap" where
  "parseDates dates h = (let (ps, h1) = parseDateProps dates h in allocate ps h1)"

fun parseRestaurantProps :: "AvailabilityData \<Rightarrow> heap \<Rightarrow> jsobject \<times> heap" where
  "parseRestaurantProps [] h = ([], h)"
| "parseRestaurantProps ((k, dates) # rest) h =
     (let (v, h1) = parseDates dates h;
          (ps, h2) = parseRestaurantProps rest h1
      in ((k, v) # ps, h2))"

definition parse :: "AvailabilityData \<Rightarrow> heap \<Rightarrow> jsvalue \<times> heap" where
  "parse json h = (let (ps, h1) = parseRestaurantProps json h in allocate ps h1)"

text \<open>
  \<^verbatim>\<open>
  export function updateAvailabilityAfterBooking(availability, restaurantId, date, time,
                                                 tablesBooked: number = 1): AvailabilityData {
    const updated = JSON.parse(JSON.stringify(availability)); // Deep clone
    if (updated[restaurantId]?.[date]?.[time] !== undefined) {
      updated[restaurantId][date][time] = Math.max(0, updated[restaurantId][date][time] - tablesBooked);
    }
    return updated;
  }
  \<close>
  The function takes the heap and the caller's reference and returns the new
  reference with the new heap, or the exception thrown. The assignment evaluates
  \<open>updated[restaurantId][date]\<close> for its left side, then the right side (which reads
  the three properties again and converts the value read to a number), and writes
  then.
\<close>

definition readSlot :: "host \<Rightarrow> heap \<Rightarrow> jsvalue \<Rightarrow> string \<Rightarrow> string \<Rightarrow> string \<Rightarrow> error + jsvalue" where
  "readSlot host h updated rid date tm =
     andThen (getProperty host h updated rid)
       (\<lambda>dates. andThen (getProperty host h dates date) (\<lambda>slots. getProperty host h slots tm))"

definition updateAvailabilityAfterBooking ::
  "host \<Rightarrow> heap \<Rightarrow> jsvalue \<Rightarrow> string \<Rightarrow> string \<Rightarrow> string \<Rightarrow> number \<Rightarrow> (error + jsvalue \<times> heap) option" where
  "updateAvailabilityAfterBooking host h availability rid date tm tablesBooked =
     (case stringify h availability of
        None \<Rightarrow> None
      | Some json \<Rightarrow>
          Some
            (let (updated, h1) = parse json h
             in andThen
                  (andThen (getProperty host h1 updated rid)
                     (\<lambda>dates. andThen (optionalProperty host h1 dates date)
                        (\<lambda>slots. optionalProperty host h1 slots tm)))
                  (\<lambda>found.
                     if found \<noteq> Undefined
                     then andThen (getProperty host h1 updated rid)
                            (\<lambda>dates. andThen (getProperty host h1 dates date)
                               (\<lambda>slots. andThen (readSlot host h1 updated rid date tm)
                                  (\<lambda>current. andThen (valueToNumber host current)
                                     (\<lambda>n. andThen
                                            (putProperty host h1 slots tm
                                               (Number (mathMax (Finite 0) (numSub n tablesBooked))))
                                            (\<lambda>h2. Inr (updated, h2))))))
                     else Inr (updated, h1))))"

section \<open>Recommendations\<close>

text \<open>
  \<^verbatim>\<open>
  export interface Restaurant {
    id: string; name: string; cuisine: string; location: string; price_range: string;
    rating: number; dietary_options: string[];
    hours: { lunch?: string; dinner: string; };
    phone: string; address: string; features: string[]; popular_dishes: string[];
    average_price_per_person: string; reservations_required: boolean;
    outdoor_seating: boolean; private_dining: boolean;
    takeout_available: boolean; delivery_available: boolean;
  }
  \<close>
  A rating and a score are numbers, in double arithmetic. The optional fields of the
  preferences are options; their names carry a prime, since a restaurant has fields of
  the same names.
\<close>

record Hours =
  lunch :: "string option"
  dinner :: string

record Restaurant =
  id' :: string
  name :: string
  cuisine :: string
  location :: string
  price_range :: string
  rating :: number
  dietary_options :: "string list"
  hours :: Hours
  phone :: string
  address :: string
  features :: "string list"
  popular_dishes :: "string list"
  average_price_per_person :: string
  reservations_required :: bool
  outdoor_seating :: bool
  private_dining :: bool
  takeout_available :: bool
  delivery_available :: bool

record Preferences =
  cuisine' :: "string option"
  dietary_options' :: "string list option"
  price_range' :: "string option"
  min_rating :: "number option"

text \<open>
  \<open>toLowerCase\<close> on strings of ASCII characters: the upper-case letters \<open>A\<close> to
  \<open>Z\<close> map to \<open>a\<close> to \<open>z\<close>, every other character to itself.
\<close>

definition lowerChar :: "char \<Rightarrow> char" where
  "lowerChar c =
     (case map_of (zip ''ABCDEFGHIJKLMNOPQRSTUVWXYZ'' ''abcdefghijklmnopqrstuvwxyz'') c of
        None \<Rightarrow> c
      | Some l \<Rightarrow> l)"

definition toLowerCase :: "string \<Rightarrow> string" where
  "toLowerCase s = map lowerChar s"

text \<open>
  The callback that scores one restaurant. In a condition \<open>x && ...\<close> an absent
  field, the empty string and the numbers \<open>0\<close> and \<open>NaN\<close> are falsy; an array is
  truthy.
  \<^verbatim>\<open>
  let score = 0;
  if (preferences.cuisine && restaurant.cuisine.toLowerCase() === preferences.cuisine.toLowerCase()) {
    score += 10;
  }
  if (preferences.dietary_options) {
    const matchCount = preferences.dietary_options.filter(option =>
      restaurant.dietary_options.some(ro => ro.toLowerCase() === option.toLowerCase())
    ).length;
    score += matchCount * 5;
  }
  if (preferences.price_range && restaurant.price_range === preferences.price_range) { score += 5; }
  score += restaurant.rating * 2;
  if (preferences.min_rating && restaurant.rating < preferences.min_rating) { score = -1; }
  return { restaurant, score };
  \<close>
\<close>

definition recommendationScore :: "Preferences \<Rightarrow> Restaurant \<Rightarrow> number" where
  "recommendationScore preferences restaurant =
     (let s0 = Finite 0;
          s1 = (if (case cuisine' preferences of
                      None \<Rightarrow> False
                    | Some c \<Rightarrow> c \<noteq> [] \<and> toLowerCase (cuisine restaurant) = toLowerCase c)
                then numAdd s0 (Finite 10) else s0);
          s2 = (case dietary_options' preferences of
                  None \<Rightarrow> s1
                | Some wanted \<Rightarrow>
                    (let matchCount =
                           length (filter (\<lambda>opt. list_ex (\<lambda>ro. toLowerCase ro = toLowerCase opt)
                                                    (dietary_options restaurant)) wanted)
                     in numAdd s1 (numMul (Finite (real matchCount)) (Finite 5))));
          s3 = (if (case price_range' preferences of
                      None \<Rightarrow> False
                    | Some p \<Rightarrow> p \<noteq> [] \<and> price_range restaurant = p)
                then numAdd s2 (Finite 5) else s2);
          s4 = numAdd s3 (numMul (rating restaurant) (Finite 2))
      in if (case min_rating preferences of
               None \<Rightarrow> False
             | Some m \<Rightarrow> truthy (Number m) \<and> numLess (rating restaurant) m)
         then Finite (- 1) else s4)"

text \<open>
  \<^verbatim>\<open>
  export function getRecommendations(restaurants, preferences, limit: number = 5): Restaurant[] {
    let scored = restaurants.map(restaurant => { ... return { restaurant, score }; });
    return scored
      .filter(item => item.score > 0)
      .sort((a, b) => b.score - a.score)
      .slice(0, limit)
      .map(item => item.restaurant);
  }
  \<close>
  A scored item is the pair of the restaurant and its score; an omitted \<open>limit\<close> is
  \<open>None\<close>. The comparator's value \<open>b.score - a.score\<close> puts \<open>a\<close> before \<open>b\<close>
  when it is not positive (\<open>NaN\<close> counts as \<open>0\<close>).
\<close>

definition getRecommendations :: "Restaurant list \<Rightarrow> Preferences \<Rightarrow> int option \<Rightarrow> Restaurant list" where
  "getRecommendations restaurants preferences limit =
     (let scored = map (\<lambda>restaurant. (restaurant, recommendationScore preferences restaurant)) restaurants
      in map fst
           (slice0 (case limit of None \<Rightarrow> 5 | Some l \<Rightarrow> l)
              (sort_by (\<lambda>a b. \<not> numLess (Finite 0) (numSub (snd b) (snd a)))
                 (filter (\<lambda>item. numLess (Finite 0) (snd item)) scored))))"
section \<open>The availability generator\<close>

text \<open>
  \<^verbatim>\<open>
  const timeSlots = [
    "11:30", "12:00", "12:30", "13:00", "13:30", "14:00",  // Lunch
    "17:00", "17:30", "18:00", "18:30", "19:00", "19:30",  // Early dinner
    "20:00", "20:30", "21:00", "21:30", "22:00"            // Late dinner
  ];
  \<close>
\<close>

definition timeSlots :: "string list" where
  "timeSlots =
     [''11:30'', ''12:00'', ''12:30'', ''13:00'', ''13:30'', ''14:00'',
      ''17:00'', ''17:30'', ''18:00'', ''18:30'', ''19:00'', ''19:30'',
      ''20:00'', ''20:30'', ''21:00'', ''21:30'', ''22:00'']"

text \<open>
  \<open>parseInt\<close> on a string that starts with decimal digits reads them; with no
  leading digit the result is \<open>NaN\<close> (\<open>None\<close>). Leading white space, a sign and a
  radix prefix are outside the model: the generator reads the hours of \<open>timeSlots\<close>
  only. \<open>hourOf\<close> is \<open>parseInt(timeSlot.split(':')[0])\<close>. A comparison with
  \<open>NaN\<close> is false.
\<close>

definition parseInt :: "string \<Rightarrow> int option" where
  "parseInt s =
     (let digits = takeWhile isDigit s
      in if digits = [] then None else Some (decimal digits))"

definition hourOf :: "string \<Rightarrow> int option" where
  "hourOf timeSlot =
     (case split_on CHR '':'' timeSlot of
        [] \<Rightarrow> None
      | piece # _ \<Rightarrow> parseInt piece)"

definition numLt :: "int option \<Rightarrow> int \<Rightarrow> bool" where
  "numLt x n = (case x of None \<Rightarrow> False | Some v \<Rightarrow> v < n)"

definition numGe :: "int option \<Rightarrow> int \<Rightarrow> bool" where
  "numGe x n = (case x of None \<Rightarrow> False | Some v \<Rightarrow> v \<ge> n)"

definition numEq :: "int option \<Rightarrow> int \<Rightarrow> bool" where
  "numEq x n = (case x of None \<Rightarrow> False | Some v \<Rightarrow> v = n)"

text \<open>
  \<open>Math.random()\<close> is a source of draws: \<open>rnd i\<close> is the \<open>i\<close>-th draw, and the
  number of draws made so far is threaded through the loops. A draw is a real number
  (the rounding of \<open>Math.random() * k\<close> to a double does not change its floor for the
  factors used here), and the constants \<open>0.3\<close> and \<open>0.2\<close> are the fractions
  \<open>3 / 10\<close> and \<open>2 / 10\<close>. The body of \<open>timeSlots.forEach\<close>, for one time
  slot of one day:
  \<^verbatim>\<open>
  const hour = parseInt(timeSlot.split(':')[0]);
  const isLunch = hour < 15;
  const isDinner = hour >= 17;
  if (isLunch && (dayOfWeek === 0 || dayOfWeek === 6) && Math.random() < 0.3) { return; }
  let availableTables = 0;
  if (hour === 19 || hour === 20) { availableTables = Math.floor(Math.random() * 3); }
  else if (hour === 18 || hour === 21) { availableTables = Math.floor(Math.random() * 5); }
  else if (isLunch) { availableTables = Math.floor(Math.random() * 6) + 2; }
  else { availableTables = Math.floor(Math.random() * 8) + 1; }
  if ((dayOfWeek === 5 || dayOfWeek === 6) && isDinner) { availableTables = Math.max(0, availableTables - 2); }
  if (dayOfWeek >= 1 && dayOfWeek <= 5 && isLunch) { availableTables = Math.max(0, availableTables - 1); }
  if ((hour === 19 || hour === 20) && Math.random() < 0.2) { availableTables = 0; }
  availability[restaurantId][dateString][timeSlot] = availableTables;
  \<close>
  The result is the count to store (\<open>None\<close> when the slot is skipped) and the new
  number of draws. \<open>&&\<close> evaluates \<open>Math.random()\<close> only when what stands before it
  holds.
\<close>

definition slotTables :: "(nat \<Rightarrow> real) \<Rightarrow> nat \<Rightarrow> string \<Rightarrow> nat \<Rightarrow> int option \<times> nat" where
  "slotTables rnd dayOfWeek timeSlot i0 =
     (let hour = hourOf timeSlot;
          isLunch = numLt hour 15;
          isDinner = numGe hour 17;
          weekendLunch = (isLunch \<and> (dayOfWeek = 0 \<or> dayOfWeek = 6));
          i1 = (if weekendLunch then i0 + 1 else i0)
      in if weekendLunch \<and> rnd i0 < 3 / 10 then (None, i1)
         else
           (let t0 = (if numEq hour 19 \<or> numEq hour 20 then \<lfloor>rnd i1 * 3\<rfloor>
                      else if numEq hour 18 \<or> numEq hour 21 then \<lfloor>rnd i1 * 5\<rfloor>
                      else if isLunch then \<lfloor>rnd i1 * 6\<rfloor> + 2
                      else \<lfloor>rnd i1 * 8\<rfloor> + 1);
                i2 = i1 + 1;
                t1 = (if (dayOfWeek = 5 \<or> dayOfWeek = 6) \<and> isDinner then max 0 (t0 - 2) else t0);
                t2 = (if dayOfWeek \<ge> 1 \<and> dayOfWeek \<le> 5 \<and> isLunch then max 0 (t1 - 1) else t1);
                peak = (numEq hour 19 \<or> numEq hour 20);
                i3 = (if peak then i2 + 1 else i2);
                t3 = (if peak \<and> rnd i2 < 2 / 10 then 0 else t2)
            in (Some t3, i3)))"

text \<open>
  The loops. For each restaurant id a fresh object, for each day offset below
  \<open>daysAhead\<close> a fresh object under the date string, filled slot by slot:
  \<^verbatim>\<open>
  restaurantIds.forEach(restaurantId => {
    availability[restaurantId] = {};
    for (let dayOffset = 0; dayOffset < daysAhead; dayOffset++) {
      const date = new Date(today);
      date.setDate(today.getDate() + dayOffset);
      const dateString = date.toISOString().split('T')[0];
      const dayOfWeek = date.getDay();
      availability[restaurantId][dateString] = {};
      timeSlots.forEach(timeSlot => { ... });
    }
  });
  \<close>
  The calendar belongs to the host: \<open>dateString k\<close> and \<open>dayOfWeek k\<close> are the date
  string and the weekday (0 = Sunday, ..., 6 = Saturday) of the day \<open>k\<close> days after
  today. Inside the loops the objects are reached through the keys just assigned, so
  each inner object is built first and assigned to its key then; the key takes the
  same place either way. The function returns the mapping as JSON text, which is read
  here as the mapping it denotes; writing the file is not modelled.
\<close>

definition fillSlot :: "(nat \<Rightarrow> real) \<Rightarrow> nat \<Rightarrow> SlotCounts \<times> nat \<Rightarrow> string \<Rightarrow> SlotCounts \<times> nat" where
  "fillSlot rnd dayOfWeek st timeSlot =
     (case slotTables rnd dayOfWeek timeSlot (snd st) of
        (None, i) \<Rightarrow> (fst st, i)
      | (Some availableTables, i) \<Rightarrow> (AList.update timeSlot availableTables (fst st), i))"

definition fillDay ::
  "(nat \<Rightarrow> string) \<Rightarrow> (nat \<Rightarrow> nat) \<Rightarrow> (nat \<Rightarrow> real) \<Rightarrow> DateSlots \<times> nat \<Rightarrow> nat \<Rightarrow> DateSlots \<times> nat" where
  "fillDay dateString dayOfWeek rnd st dayOffset =
     (let (slots, i) = foldl (fillSlot rnd (dayOfWeek dayOffset)) ([], snd st) timeSlots
      in (AList.update (dateString dayOffset) slots (fst st), i))"

definition fillRestaurant ::
  "(nat \<Rightarrow> string) \<Rightarrow> (nat \<Rightarrow> nat) \<Rightarrow> (nat \<Rightarrow> real) \<Rightarrow> nat
     \<Rightarrow> AvailabilityData \<times> nat \<Rightarrow> string \<Rightarrow> AvailabilityData \<times> nat" where
  "fillRestaurant dateString dayOfWeek rnd daysAhead st rid =
     (let (dates, i) = foldl (fillDay dateString dayOfWeek rnd) ([], snd st) [0..<daysAhead]
      in (AList.update rid dates (fst st), i))"

definition generateAvailability ::
  "(nat \<Rightarrow> string) \<Rightarrow> (nat \<Rightarrow> nat) \<Rightarrow> (nat \<Rightarrow> real) \<Rightarrow> string list \<Rightarrow> nat \<Rightarrow> AvailabilityData" where
  "generateAvailability dateString dayOfWeek rnd restaurantIds daysAhead =
     fst (foldl (fillRestaurant dateString dayOfWeek rnd daysAhead) ([], 0) restaurantIds)"

section \<open>Vocabulary of the statements\<close>


text \<open>
  One comparator that orders consistently, for the concrete instances: the order of
  the character codes. On the fixed-width \<open>HH:MM\<close> keys \<open>localeCompare\<close>
  orders the same way.
\<close>

definition codeUnitCompare :: "string \<Rightarrow> string \<Rightarrow> int" where
  "codeUnitCompare a b = (if a < b then - 1 else if b < a then 1 else 0)"

text \<open>A small availability mapping for the concrete instances.\<close>

definition exampleAvailability :: AvailabilityData where
  "exampleAvailability =
     [(''r1'', [(''2025-11-03'', [(''19:00'', 2), (''11:30'', 0), (''12:00'', 5), (''19:30'', 1), (''18:30'', 4)])]),
      (''r2'', [(''2025-11-03'', [(''19:00'', 3), (''20:00'', 3)])])]"

text \<open>
  A small host for the concrete instances. Its \<open>Object.prototype\<close> (host object 0)
  carries the standard methods, each a function with its standard \<open>length\<close> and
  \<open>name\<close> (ECMA-262, 20.1.3 and Annex B.2.2), and the accessor \<open>__proto__\<close>. The
  \<open>length\<close> and the \<open>name\<close> of a function cannot be written, reading \<open>caller\<close> or
  \<open>arguments\<close> of a built-in function throws, and a function converts to \<open>NaN\<close>. The
  code is strict, so a write to a property of a primitive throws. What this host does
  not name is absent from it. Its time zone is UTC.
\<close>

definition exampleMethods :: "(string \<times> nat \<times> nat) list" where
  "exampleMethods =
     [(''constructor'', 1, 1), (''hasOwnProperty'', 2, 1), (''isPrototypeOf'', 3, 1),
      (''propertyIsEnumerable'', 4, 1), (''toLocaleString'', 5, 0), (''toString'', 6, 0),
      (''valueOf'', 7, 0), (''__defineGetter__'', 8, 2), (''__defineSetter__'', 9, 2),
      (''__lookupGetter__'', 10, 1), (''__lookupSetter__'', 11, 1)]"

definition exampleInherited :: "string \<Rightarrow> jsvalue" where
  "exampleInherited k =
     (if k = ''__proto__'' then HostObject 0
      else (case map_of exampleMethods k of None \<Rightarrow> Undefined | Some (i, len) \<Rightarrow> HostObject i))"

definition exampleProperty :: "jsvalue \<Rightarrow> string \<Rightarrow> error + jsvalue" where
  "exampleProperty v k =
     (case v of
        HostObject i \<Rightarrow>
          if i = 0 then (if k = ''__proto__'' then Inr Null else Inr (exampleInherited k))
          else (case find (\<lambda>(nm, j, len). j = i) exampleMethods of
                  None \<Rightarrow> Inr Undefined
                | Some (nm, j, len) \<Rightarrow>
                    if k = ''length'' then Inr (countValue (int len))
                    else if k = ''name'' then Inr (String (if nm = ''constructor'' then ''Object'' else nm))
                    else if k = ''caller'' \<or> k = ''arguments'' then Inl TypeError
                    else Inr (exampleInherited k))
      | _ \<Rightarrow> Inr Undefined)"

definition exampleAssign :: "jsvalue \<Rightarrow> string \<Rightarrow> jsvalue \<Rightarrow> error + unit" where
  "exampleAssign v k x =
     (case v of
        HostObject i \<Rightarrow>
          if i \<noteq> 0 \<and> (k = ''length'' \<or> k = ''name'' \<or> k = ''caller'' \<or> k = ''arguments'')
          then Inl TypeError else Inr ()
      | _ \<Rightarrow> Inl TypeError)"

definition exampleHost :: host where
  "exampleHost =
     \<lparr>inheritedProperty = exampleInherited,
      assignInherited = (\<lambda>k. if k = ''__proto__'' then CallsSetter else CreatesOwn),
      hostProperty = exampleProperty,
      assignHostProperty = exampleAssign,
      hostToNumber = (\<lambda>v. Inr NaN),
      utcOffset = (\<lambda>t. 0),
      localOffset = (\<lambda>t. 0),
      dateParse = (\<lambda>s. None)\<rparr>"

text \<open>The four messages of \<open>validateBooking\<close>, by name.\<close>

definition pastDateError :: string where
  "pastDateError = ''Cannot book for a past date''"

definition tooSmallError :: string where
  "tooSmallError = ''Party size must be at least 1''"

definition tooLargeError :: string where
  "tooLargeError = ''Party size cannot exceed 20. Please contact restaurant directly for large groups''"

definition timeFormatError :: string where
  "timeFormatError = ''Invalid time format. Use HH:MM''"

text \<open>
  The scored items of \<open>getRecommendations\<close> after the filter and the sort, before
  the truncation; a total order of the numbers in which \<open>NaN\<close> comes first (on the
  other numbers \<open>numOrder x y\<close> says that \<open>y < x\<close> is false); two strings that
  differ at most in the case of their ASCII letters, said with the character codes
  (\<open>A\<close> is 65, \<open>Z\<close> is 90, and the lower-case letter is 32 further); and a
  restaurant record for the concrete instances, rated \<open>4.2\<close>.
\<close>

definition ranked :: "Preferences \<Rightarrow> Restaurant list \<Rightarrow> (Restaurant \<times> number) list" where
  "ranked p rs =
     sort_by (\<lambda>a b. \<not> numLess (Finite 0) (numSub (snd b) (snd a)))
       (filter (\<lambda>item. numLess (Finite 0) (snd item)) (map (\<lambda>r. (r, recommendationScore p r)) rs))"

fun numOrder :: "number \<Rightarrow> number \<Rightarrow> bool" where
  "numOrder NaN y = True"
| "numOrder x NaN = False"
| "numOrder x y = (\<not> numLess y x)"

definition sameLetter :: "char \<Rightarrow> char \<Rightarrow> bool" where
  "sameLetter x y \<longleftrightarrow>
     x = y
     \<or> (65 \<le> (of_char x :: nat) \<and> (of_char x :: nat) \<le> 90 \<and> (of_char y :: nat) = of_char x + 32)
     \<or> (65 \<le> (of_char y :: nat) \<and> (of_char y :: nat) \<le> 90 \<and> (of_char x :: nat) = of_char y + 32)"

definition sameIgnoringCase :: "string \<Rightarrow> string \<Rightarrow> bool" where
  "sameIgnoringCase s t \<longleftrightarrow> list_all2 sameLetter s t"

definition exampleRestaurant :: Restaurant where
  "exampleRestaurant =
     \<lparr>id' = ''r1'', name = ''Trattoria'', cuisine = ''Italian'', location = ''Downtown'',
      price_range = ''$$'', rating = toDouble (42 / 10), dietary_options = [''Vegan'', ''Gluten-Free''],
      hours = \<lparr>lunch = None, dinner = ''17:00-22:00''\<rparr>, phone = ''555-0100'',
      address = ''1 Main St'', features = [], popular_dishes = [],
      average_price_per_person = ''$30'', reservations_required = False,
      outdoor_seating = False, private_dining = False, takeout_available = True,
      delivery_available = False\<rparr>"





text \<open>
  The count that a mapping stores under a key path (its own keys only); the object
  that \<open>JSON.parse\<close> builds for the counts of one date; the mapping with the count
  of one slot lowered by \<open>k\<close> and floored at 0 (nothing changes when the key path is
  missing); the keys of a mapping, level by level; the value that the objects of a heap
  store under a path of own keys; and the example mapping as objects of a heap, with
  the reference to it.
\<close>

definition storedCount :: "AvailabilityData \<Rightarrow> string \<Rightarrow> string \<Rightarrow> string \<Rightarrow> int option" where
  "storedCount av r d t =
     Option.bind (map_of av r) (\<lambda>dates. Option.bind (map_of dates d) (\<lambda>slots. map_of slots t))"

definition countsObject :: "SlotCounts \<Rightarrow> jsobject" where
  "countsObject slots = map (\<lambda>(k, n). (k, countValue n)) slots"

definition decremented :: "AvailabilityData \<Rightarrow> string \<Rightarrow> string \<Rightarrow> string \<Rightarrow> int \<Rightarrow> AvailabilityData" where
  "decremented av r d t k =
     AList.map_entry r (AList.map_entry d (AList.map_entry t (\<lambda>c. max 0 (c - k)))) av"

definition keysOf :: "AvailabilityData \<Rightarrow> (string \<times> (string \<times> string list) list) list" where
  "keysOf av = map (\<lambda>(r, dates). (r, map (\<lambda>(d, slots). (d, map fst slots)) dates)) av"

fun storedValue :: "heap \<Rightarrow> jsvalue \<Rightarrow> string list \<Rightarrow> jsvalue option" where
  "storedValue h v [] = Some v"
| "storedValue h v (k # ks) =
     Option.bind (Option.bind (objectAt h v) (\<lambda>ob. map_of ob k)) (\<lambda>w. storedValue h w ks)"

definition exampleHeap :: heap where
  "exampleHeap = snd (parse exampleAvailability [])"

definition exampleRoot :: jsvalue where
  "exampleRoot = fst (parse exampleAvailability [])"

section \<open>Properties of the rounding\<close>

lemma roundHalfEven_int [simp]: "roundHalfEven (of_int k) = k"
  by (simp add: roundHalfEven_def)

lemma roundHalfEven_near: "\<bar>of_int (roundHalfEven x) - x\<bar> \<le> 1 / 2"
  unfolding roundHalfEven_def Let_def by (auto simp: abs_if) linarith+

lemma roundHalfEven_le: "x \<le> of_int k \<Longrightarrow> roundHalfEven x \<le> k"
  unfolding roundHalfEven_def Let_def
  by (auto simp: not_less) linarith+

lemma roundHalfEven_ge: "of_int k \<le> x \<Longrightarrow> k \<le> roundHalfEven x"
  unfolding roundHalfEven_def Let_def
  by (auto simp: not_less) linarith+

lemma roundHalfEven_mono: "x \<le> y \<Longrightarrow> roundHalfEven x \<le> roundHalfEven y"
proof -
  assume xy: "x \<le> y"
  show ?thesis
  proof (cases "\<lfloor>x\<rfloor> = \<lfloor>y\<rfloor>")
    case True
    with xy show ?thesis unfolding roundHalfEven_def Let_def by auto
  next
    case False
    with xy have "\<lfloor>x\<rfloor> + 1 \<le> \<lfloor>y\<rfloor>" using floor_mono[OF xy] by linarith
    moreover have "roundHalfEven x \<le> \<lfloor>x\<rfloor> + 1" unfolding roundHalfEven_def Let_def by auto
    moreover have "\<lfloor>y\<rfloor> \<le> roundHalfEven y" unfolding roundHalfEven_def Let_def by auto
    ultimately show ?thesis by linarith
  qed
qed

lemma pow2_nonneg: "0 \<le> n \<Longrightarrow> (2::real) powi n = 2 ^ nat n"
  by (simp add: power_int_def)

lemma pow2_neg: "0 \<le> n \<Longrightarrow> (2::real) powi (- n) = 1 / 2 ^ nat n"
  by (simp add: power_int_minus_divide power_int_def power_one_over)

lemma binade_bounds:
  assumes "0 < x"
  shows "2 powi binade x \<le> x" and "x < 2 powi (binade x + 1)"
proof -
  show "2 powi binade x \<le> x"
  proof (cases "1 \<le> x")
    case True
    then have p: "0 < \<lfloor>x\<rfloor>" by linarith
    from bitlen_bounds[OF p] have "2 ^ nat (bitlen \<lfloor>x\<rfloor> - 1) \<le> \<lfloor>x\<rfloor>" by simp
    then have "(2::real) ^ nat (bitlen \<lfloor>x\<rfloor> - 1) \<le> of_int \<lfloor>x\<rfloor>"
      by (metis of_int_le_iff of_int_numeral of_int_power)
    also have "\<dots> \<le> x" by linarith
    finally have "(2::real) ^ nat (bitlen \<lfloor>x\<rfloor> - 1) \<le> x" .
    moreover have "0 \<le> bitlen \<lfloor>x\<rfloor> - 1" using p by (auto simp: bitlen_alt_def)
    ultimately show ?thesis using True by (simp add: binade_def pow2_nonneg)
  next
    case False
    let ?n = "\<lceil>1 / x\<rceil> - 1"
    from False assms have "1 < 1 / x" by simp
    then have p: "0 < ?n" by linarith
    from bitlen_bounds[OF p] have "?n < 2 ^ nat (bitlen ?n)" by simp
    then have "\<lceil>1 / x\<rceil> \<le> 2 ^ nat (bitlen ?n)" by linarith
    then have "real_of_int \<lceil>1 / x\<rceil> \<le> 2 ^ nat (bitlen ?n)"
      by (metis of_int_le_iff of_int_numeral of_int_power)
    then have "1 / x \<le> 2 ^ nat (bitlen ?n)" by linarith
    then have "1 / 2 ^ nat (bitlen ?n) \<le> x" using assms
      by (simp add: field_simps)
    moreover have "0 \<le> bitlen ?n" by (rule bitlen_nonneg)
    ultimately show ?thesis using False
      by (simp add: binade_def pow2_neg)
  qed
  show "x < 2 powi (binade x + 1)"
  proof (cases "1 \<le> x")
    case True
    then have p: "0 < \<lfloor>x\<rfloor>" by linarith
    from bitlen_bounds[OF p] have "\<lfloor>x\<rfloor> < 2 ^ nat (bitlen \<lfloor>x\<rfloor>)" by simp
    then have "\<lfloor>x\<rfloor> + 1 \<le> 2 ^ nat (bitlen \<lfloor>x\<rfloor>)" by linarith
    then have "real_of_int (\<lfloor>x\<rfloor> + 1) \<le> 2 ^ nat (bitlen \<lfloor>x\<rfloor>)"
      by (metis of_int_le_iff of_int_numeral of_int_power)
    then have "x < 2 ^ nat (bitlen \<lfloor>x\<rfloor>)" by linarith
    moreover have "0 \<le> bitlen \<lfloor>x\<rfloor>" by (rule bitlen_nonneg)
    ultimately show ?thesis using True by (simp add: binade_def pow2_nonneg)
  next
    case False
    let ?n = "\<lceil>1 / x\<rceil> - 1"
    from False assms have "1 < 1 / x" by simp
    then have p: "0 < ?n" by linarith
    then have b1: "1 \<le> bitlen ?n" by (auto simp: bitlen_alt_def)
    from bitlen_bounds[OF p] have "2 ^ nat (bitlen ?n - 1) \<le> ?n" by simp
    then have "(2::real) ^ nat (bitlen ?n - 1) \<le> of_int ?n"
      by (metis of_int_le_iff of_int_numeral of_int_power)
    also have "\<dots> < 1 / x" by linarith
    finally have "(2::real) ^ nat (bitlen ?n - 1) < 1 / x" .
    then have "x < 1 / 2 ^ nat (bitlen ?n - 1)" using assms
      by (simp add: field_simps)
    moreover have "(2::real) powi (- (bitlen ?n - 1)) = 1 / 2 ^ nat (bitlen ?n - 1)"
      using b1 by (intro pow2_neg) simp
    moreover have "binade x + 1 = - (bitlen ?n - 1)" using False by (simp add: binade_def)
    ultimately show ?thesis by simp
  qed
qed

lemma binade_unique:
  assumes "0 < x" "2 powi e \<le> x" "x < 2 powi (e + 1)"
  shows "binade x = e"
proof (rule ccontr)
  assume ne: "binade x \<noteq> e"
  note b = binade_bounds[OF assms(1)]
  show False
  proof (cases "binade x < e")
    case True
    then have "binade x + 1 \<le> e" by simp
    then have "(2::real) powi (binade x + 1) \<le> 2 powi e" by (intro power_int_increasing) simp_all
    with b(2) assms(2) show False by linarith
  next
    case False
    with ne have "e + 1 \<le> binade x" by simp
    then have "(2::real) powi (e + 1) \<le> 2 powi binade x" by (intro power_int_increasing) simp_all
    with b(1) assms(3) show False by linarith
  qed
qed

lemma binade_mono: "0 < x \<Longrightarrow> x \<le> y \<Longrightarrow> binade x \<le> binade y"
proof (rule ccontr)
  assume x: "0 < x" and xy: "x \<le> y" and n: "\<not> binade x \<le> binade y"
  then have "binade y + 1 \<le> binade x" by simp
  then have "(2::real) powi (binade y + 1) \<le> 2 powi binade x" by (intro power_int_increasing) simp_all
  moreover from x xy have "0 < y" by simp
  ultimately show False using binade_bounds[OF x] binade_bounds[OF \<open>0 < y\<close>] xy by linarith
qed


lemma quantum_mono: "0 < a \<Longrightarrow> a \<le> b \<Longrightarrow> quantum a \<le> quantum b"
  using binade_mono[of a b] by (simp add: quantum_def)

lemma quantum_ge: "- 1074 \<le> quantum a"
  by (simp add: quantum_def)

lemma scaled_less:
  assumes "0 < a"
  shows "a / 2 powi quantum a < 2 ^ 53"
proof -
  have "binade a + 1 - quantum a \<le> 53" by (simp add: quantum_def)
  then have "(2::real) powi (binade a + 1 - quantum a) \<le> 2 powi 53"
    by (intro power_int_increasing) simp_all
  moreover have "a / 2 powi quantum a < 2 powi (binade a + 1) / 2 powi quantum a"
    using binade_bounds(2)[OF assms] by (simp add: divide_strict_right_mono)
  moreover have "(2::real) powi (binade a + 1) / 2 powi quantum a = 2 powi (binade a + 1 - quantum a)"
    by (simp add: power_int_diff)
  ultimately show ?thesis by simp
qed

lemma scaled_ge:
  assumes "0 < a" "- 1074 < quantum a"
  shows "2 ^ 52 \<le> a / 2 powi quantum a"
proof -
  from assms(2) have q: "quantum a = binade a - 52" by (simp add: quantum_def max_def split: if_splits)
  have "(2::real) powi binade a / 2 powi quantum a \<le> a / 2 powi quantum a"
    using binade_bounds(1)[OF assms(1)] by (simp add: divide_right_mono)
  moreover have "(2::real) powi binade a / 2 powi quantum a = 2 powi (binade a - quantum a)"
    by (simp add: power_int_diff)
  ultimately show ?thesis by (simp add: q)
qed

lemma nearest_grid:
  assumes "0 < a"
  shows "\<exists>k. nearest a = of_int k * 2 powi quantum a \<and> 0 \<le> k \<and> k \<le> 2 ^ 53"
proof -
  let ?k = "roundHalfEven (a / 2 powi quantum a)"
  have "a / 2 powi quantum a \<le> of_int (2 ^ 53)" using scaled_less[OF assms] by simp
  then have "?k \<le> 2 ^ 53" by (rule roundHalfEven_le)
  moreover have "of_int 0 \<le> a / 2 powi quantum a" using assms by simp
  then have "0 \<le> ?k" by (rule roundHalfEven_ge)
  ultimately show ?thesis by (auto simp: nearest_def)
qed

lemma nearest_nonneg: "0 < a \<Longrightarrow> 0 \<le> nearest a"
  using nearest_grid[of a] by auto

lemma nearest_fixed:
  assumes m: "0 < m" "m < 2 ^ 53" and q: "- 1074 \<le> q" and a: "a = of_int m * 2 powi q"
  shows "nearest a = a"
proof -
  have pos: "0 < a" using m a by simp
  have "a < 2 ^ 53 * 2 powi q"
  proof -
    have "real_of_int m < 2 ^ 53" using m(2) by (metis of_int_less_iff of_int_numeral of_int_power)
    then show ?thesis unfolding a by (simp add: mult_strict_right_mono)
  qed
  also have "\<dots> = 2 powi (q + 53)" by (simp add: power_int_add)
  finally have "a < 2 powi (q + 53)" .
  with binade_bounds(1)[OF pos] have "(2::real) powi binade a < 2 powi (q + 53)" by linarith
  then have "binade a < q + 53"
    using power_int_increasing[of "q + 53" "binade a" "2::real"] by (cases "binade a < q + 53") simp_all
  with q have qa: "quantum a \<le> q" by (simp add: quantum_def)
  define u where "u = quantum a"
  from qa have e: "(2::real) powi q = 2 ^ nat (q - u) * 2 powi u"
    by (simp add: u_def power_int_add[symmetric] flip: pow2_nonneg)
  have "a / 2 powi u = of_int m * 2 ^ nat (q - u)"
    by (simp add: a e)
  also have "\<dots> = of_int (m * 2 ^ nat (q - u))" by simp
  finally have s: "a / 2 powi u = of_int (m * 2 ^ nat (q - u))" .
  have "nearest a = of_int (roundHalfEven (a / 2 powi u)) * 2 powi u"
    by (simp add: nearest_def u_def)
  also have "\<dots> = of_int (m * 2 ^ nat (q - u)) * 2 powi u"
    by (simp only: s roundHalfEven_int)
  also have "\<dots> = of_int m * 2 powi q" by (simp add: e)
  finally show ?thesis by (simp add: a)
qed


lemma nearest_mono:
  assumes "0 < a" "a \<le> b"
  shows "nearest a \<le> nearest b"
proof (cases "quantum a = quantum b")
  case True
  have "a / 2 powi quantum b \<le> b / 2 powi quantum b"
    using assms(2) by (simp add: divide_right_mono)
  then have "roundHalfEven (a / 2 powi quantum b) \<le> roundHalfEven (b / 2 powi quantum b)"
    by (rule roundHalfEven_mono)
  then have "real_of_int (roundHalfEven (a / 2 powi quantum b))
      \<le> real_of_int (roundHalfEven (b / 2 powi quantum b))" by simp
  then show ?thesis by (simp add: nearest_def True mult_right_mono)
next
  case False
  with quantum_mono[OF assms] have lt: "quantum a + 1 \<le> quantum b" by simp
  from assms have b: "0 < b" by simp
  from lt quantum_ge[of a] have "- 1074 < quantum b" by linarith
  from scaled_ge[OF b this] have "of_int (2 ^ 52) \<le> b / 2 powi quantum b" by simp
  then have "2 ^ 52 \<le> roundHalfEven (b / 2 powi quantum b)" by (rule roundHalfEven_ge)
  then have "real_of_int (2 ^ 52) \<le> real_of_int (roundHalfEven (b / 2 powi quantum b))"
    by (simp only: of_int_le_iff)
  then have "2 ^ 52 * 2 powi quantum b \<le> nearest b"
    by (simp add: nearest_def mult_right_mono)
  moreover obtain k where k: "nearest a = of_int k * 2 powi quantum a" "k \<le> 2 ^ 53"
    using nearest_grid[OF assms(1)] by blast
  from k(2) have "real_of_int k \<le> 2 ^ 53" by (metis of_int_le_iff of_int_numeral of_int_power)
  then have "nearest a \<le> 2 ^ 53 * 2 powi quantum a"
    by (simp add: k(1) mult_right_mono)
  moreover have "(2::real) ^ 53 * 2 powi quantum a = 2 ^ 52 * 2 powi (quantum a + 1)"
    by (simp add: power_int_add)
  moreover have "(2::real) powi (quantum a + 1) \<le> 2 powi quantum b"
    using lt by (intro power_int_increasing) simp_all
  then have "(2::real) ^ 52 * 2 powi (quantum a + 1) \<le> 2 ^ 52 * 2 powi quantum b"
    by simp
  ultimately show ?thesis by linarith
qed

lemma nearest_idem:
  assumes "0 < a" "0 < nearest a"
  shows "nearest (nearest a) = nearest a"
proof -
  obtain k where k: "nearest a = of_int k * 2 powi quantum a" "0 \<le> k" "k \<le> 2 ^ 53"
    using nearest_grid[OF assms(1)] by blast
  from assms(2) k have kp: "0 < k" by (cases "k = 0") auto
  show ?thesis
  proof (cases "k = 2 ^ 53")
    case True
    have "nearest a = of_int (2 ^ 52) * 2 powi (quantum a + 1)"
      by (simp add: k(1) True power_int_add)
    then show ?thesis
      using quantum_ge[of a] by (intro nearest_fixed[where m = "2 ^ 52" and q = "quantum a + 1"]) simp_all
  next
    case False
    with k(3) have "k < 2 ^ 53" by simp
    then show ?thesis using kp quantum_ge[of a] k(1) by (intro nearest_fixed[where m = k and q = "quantum a"]) simp_all
  qed
qed

lemma nearest_tiny:
  assumes "2 powi (- 1074) \<le> a"
  shows "2 powi (- 1074) \<le> nearest a"
proof -
  have "nearest (2 powi (- 1074)) = 2 powi (- 1074)"
    by (rule nearest_fixed[where m = 1 and q = "- 1074"]) simp_all
  moreover have "nearest (2 powi (- 1074)) \<le> nearest a"
    using assms by (intro nearest_mono) simp_all
  ultimately show ?thesis by simp
qed

lemma toDouble_alt:
  "toDouble x =
     (if 2 ^ 1024 \<le> signedNearest x then PosInfinity
      else if signedNearest x \<le> - (2 ^ 1024) then NegInfinity
      else Finite (signedNearest x))"
proof -
  have "0 < x \<Longrightarrow> 0 \<le> nearest x" by (rule nearest_nonneg)
  moreover have "x < 0 \<Longrightarrow> 0 \<le> nearest (- x)" by (rule nearest_nonneg) simp
  ultimately show ?thesis
    by (auto simp: toDouble_def signedNearest_def abs_if)
qed

lemma signedNearest_mono: "x \<le> y \<Longrightarrow> signedNearest x \<le> signedNearest y"
proof -
  assume xy: "x \<le> y"
  have p: "0 \<le> nearest a" if "0 < a" for a using that by (rule nearest_nonneg)
  consider "0 < x" | "x = 0" | "x < 0" "y < 0" | "x < 0" "0 \<le> y" by linarith
  then show ?thesis
  proof cases
    case 1
    with xy nearest_mono[of x y] show ?thesis by (simp add: signedNearest_def)
  next
    case 2
    with xy p[of y] show ?thesis by (auto simp: signedNearest_def)
  next
    case 3
    with xy nearest_mono[of "- y" "- x"] show ?thesis by (simp add: signedNearest_def)
  next
    case 4
    with p[of "- x"] p[of y] show ?thesis by (auto simp: signedNearest_def)
  qed
qed

lemma toDouble_mono: "x \<le> y \<Longrightarrow> \<not> numLess (toDouble y) (toDouble x)"
  using signedNearest_mono[of x y] by (auto simp: toDouble_alt)

lemma toDouble_not_NaN [simp]: "toDouble x \<noteq> NaN"
  by (simp add: toDouble_alt)

lemma toDouble_int:
  assumes "\<bar>n\<bar> \<le> 2 ^ 53"
  shows "toDouble (of_int n) = Finite (of_int n)"
proof -
  have fixed: "nearest (of_int m) = of_int m" if m: "0 < m" "m \<le> 2 ^ 53" for m :: int
  proof (cases "m = 2 ^ 53")
    case True
    show ?thesis
      by (rule nearest_fixed[where m = "2 ^ 52" and q = 1]) (simp_all add: True)
  next
    case False
    with m show ?thesis by (intro nearest_fixed[where m = m and q = 0]) simp_all
  qed
  have bound: "real_of_int m < 2 ^ 1024" if "m \<le> 2 ^ 53" for m :: int
  proof -
    from that have "real_of_int m \<le> 2 ^ 53" by (metis of_int_le_iff of_int_numeral of_int_power)
    also have "(2::real) ^ 53 < 2 ^ 1024" by (rule power_strict_increasing) simp_all
    finally show ?thesis .
  qed
  consider "n = 0" | "0 < n" | "n < 0" by linarith
  then show ?thesis
  proof cases
    case 1 then show ?thesis by (simp add: toDouble_def)
  next
    case 2
    with assms have "n \<le> 2 ^ 53" by simp
    with 2 fixed[of n] bound[of n] show ?thesis by (simp add: toDouble_def)
  next
    case 3
    with assms have "- n \<le> 2 ^ 53" "0 < - n" by simp_all
    with 3 fixed[of "- n"] bound[of "- n"] show ?thesis by (simp add: toDouble_def)
  qed
qed

lemma isDouble_nearest: "isDouble x \<Longrightarrow> 0 < x \<Longrightarrow> nearest x = x"
  by (simp add: isDouble_def toDouble_def split: if_splits)

lemma isDouble_minus: "isDouble (- x) = isDouble x"
  by (auto simp: isDouble_def toDouble_def split: if_splits)

lemma isDouble_0 [simp]: "isDouble 0"
  by (simp add: isDouble_def toDouble_def)

lemma double_form:
  assumes "isDouble x" "0 < x"
  shows "\<exists>k q. x = of_int k * 2 powi q \<and> 0 < k \<and> k \<le> 2 ^ 53 \<and> - 1074 \<le> q \<and> q = quantum x"
proof -
  from nearest_grid[OF assms(2)] obtain k where
    k: "nearest x = of_int k * 2 powi quantum x" "0 \<le> k" "k \<le> 2 ^ 53" by blast
  from isDouble_nearest[OF assms] k(1) have x: "x = of_int k * 2 powi quantum x" by simp
  with assms(2) k(2) have "0 < k" by (cases "k = 0") auto
  with x k(3) quantum_ge[of x] show ?thesis by blast
qed

lemma pow2_split: "m \<le> q \<Longrightarrow> (2::real) powi q = 2 ^ nat (q - m) * 2 powi m"
  by (simp add: power_int_add[symmetric] flip: pow2_nonneg)

lemma double_grid:
  assumes "isDouble x"
  shows "\<exists>k::int. x = of_int k * 2 powi (- 1074)"
proof -
  have pos: "\<exists>k::int. y = of_int k * 2 powi (- 1074)" if "isDouble y" "0 < y" for y
  proof -
    from double_form[OF that] obtain k q where
      kq: "y = of_int k * 2 powi q" "- 1074 \<le> q" by blast
    define g where "g = (2::real) powi (- 1074)"
    have "(2::real) powi q = 2 ^ nat (q - (- 1074)) * g"
      unfolding g_def using kq(2) by (rule pow2_split)
    then have "y = of_int (k * 2 ^ nat (q - (- 1074))) * g"
      by (simp add: kq(1))
    then show ?thesis unfolding g_def by blast
  qed
  consider "x = 0" | "0 < x" | "x < 0" by linarith
  then show ?thesis
  proof cases
    case 1 then show ?thesis by (intro exI[of _ 0]) simp
  next
    case 2 with pos[OF assms] show ?thesis by blast
  next
    case 3
    define g where "g = (2::real) powi (- 1074)"
    from 3 assms pos[of "- x"] obtain k :: int where "- x = of_int k * g"
      unfolding g_def by (auto simp: isDouble_minus)
    then have "x = of_int (- k) * g" by simp
    then show ?thesis unfolding g_def by blast
  qed
qed

lemma toDouble_isDouble:
  assumes "toDouble x = Finite y"
  shows "isDouble y"
proof -
  have pos: "isDouble (nearest a)" if "0 < a" "nearest a < 2 ^ 1024" for a
  proof (cases "nearest a = 0")
    case True then show ?thesis by simp
  next
    case False
    with nearest_nonneg[OF that(1)] have p: "0 < nearest a" by simp
    from nearest_idem[OF that(1) p] p that(2) show ?thesis
      by (simp add: isDouble_def toDouble_def)
  qed
  consider "x = 0" | "0 < x" | "x < 0" by linarith
  then show ?thesis
  proof cases
    case 1 with assms show ?thesis by (simp add: toDouble_def)
  next
    case 2
    with assms have "y = nearest x" "nearest x < 2 ^ 1024"
      by (auto simp: toDouble_def split: if_splits)
    with pos[OF 2] show ?thesis by simp
  next
    case 3
    with assms have "y = - nearest (- x)" "nearest (- x) < 2 ^ 1024"
      by (auto simp: toDouble_def split: if_splits)
    with pos[of "- x"] 3 show ?thesis by (simp add: isDouble_minus)
  qed
qed

lemma toDouble_positive:
  assumes "2 powi (- 1074) \<le> x"
  shows "numLess (Finite 0) (toDouble x)"
proof -
  define g where "g = (2::real) powi (- 1074)"
  have p: "0 < g" unfolding g_def by simp
  from assms have gx: "g \<le> x" unfolding g_def .
  with p have x: "0 < x" by linarith
  from nearest_tiny[OF assms] have "g \<le> nearest x" unfolding g_def .
  with p have "0 < nearest x" by linarith
  with x show ?thesis by (simp add: toDouble_def)
qed

lemma toDouble_0 [simp]: "toDouble 0 = Finite 0"
  by (simp add: toDouble_def)

lemma difference_sign:
  assumes "isDouble a" "isDouble b"
  shows "numLess (Finite 0) (toDouble (b - a)) \<longleftrightarrow> a < b"
proof
  assume "numLess (Finite 0) (toDouble (b - a))"
  then show "a < b"
    using toDouble_mono[of "b - a" 0] by (cases "a < b") auto
next
  assume lt: "a < b"
  define g where "g = (2::real) powi (- 1074)"
  from double_grid[OF assms(1)] double_grid[OF assms(2)] obtain k l :: int where
    kl: "a = of_int k * g" "b = of_int l * g" unfolding g_def by blast
  have p: "0 < g" unfolding g_def by simp
  from lt kl have "real_of_int k < real_of_int l"
    using p by (simp add: mult_less_cancel_right)
  then have "k + 1 \<le> l" by simp
  then have "real_of_int k + 1 \<le> real_of_int l" by linarith
  then have "(real_of_int k + 1) * g \<le> real_of_int l * g"
    using p by (simp add: mult_le_cancel_right)
  then have "g \<le> b - a"
    unfolding kl by (simp add: algebra_simps)
  then show "numLess (Finite 0) (toDouble (b - a))"
    unfolding g_def by (rule toDouble_positive)
qed

text \<open>
  Evaluating the rounding at a given number: the binade is supplied, and what is left
  is arithmetic on fractions.
\<close>

lemma nearest_eval:
  assumes "0 < x" "2 powi e \<le> x" "x < 2 powi (e + 1)"
  shows "nearest x = of_int (roundHalfEven (x / 2 powi (max (e - 52) (- 1074)))) * 2 powi (max (e - 52) (- 1074))"
  using binade_unique[OF assms] by (simp add: nearest_def quantum_def)

lemma toDouble_eval:
  assumes "0 < x" "2 powi e \<le> x" "x < 2 powi (e + 1)"
    and "y = of_int (roundHalfEven (x / 2 powi (max (e - 52) (- 1074)))) * 2 powi (max (e - 52) (- 1074))"
    and "y < 2 ^ 1024"
  shows "toDouble x = Finite y" and "toDouble (- x) = Finite (- y)"
  using assms(1,4,5) nearest_eval[OF assms(1-3)] by (simp_all add: toDouble_def)

lemma isDouble_int: "\<bar>n\<bar> \<le> 2 ^ 53 \<Longrightarrow> isDouble (of_int n)"
  by (simp add: isDouble_def toDouble_int)

section \<open>Properties of time strings\<close>

lemma regexTest_Nil: "regexTest [] s \<longleftrightarrow> s = []"
  by (cases s) simp_all

lemma regexTest_Cons:
  "regexTest (a # as) s \<longleftrightarrow> (\<exists>c cs. s = c # cs \<and> atomMatches a c \<and> regexTest as cs)"
  by (cases s) simp_all

lemma regexTest_timeFormat:
  "regexTest timeFormat tm \<longleftrightarrow>
     (\<exists>h1 h2 m1 m2. tm = [h1, h2, CHR '':'', m1, m2] \<and> isDigit h1 \<and> isDigit h2 \<and> isDigit m1 \<and> isDigit m2)"
  unfolding timeFormat_def regexTest_Cons regexTest_Nil by auto

lemma isDigit_range: "isDigit c \<Longrightarrow> 0 \<le> digitValue c \<and> digitValue c \<le> 9 \<and> c \<noteq> CHR '':''"
  by (auto simp: isDigit_def digitValue_def)

lemma digitValue_mono: "c < c' \<longleftrightarrow> digitValue c < digitValue c'"
  by (simp add: digitValue_def less_char_def)

lemma digitValue_inj: "c = c' \<longleftrightarrow> digitValue c = digitValue c'"
  by (auto simp: digitValue_def)

lemma digitValue_le: "c \<le> c' \<longleftrightarrow> digitValue c \<le> digitValue c'"
  by (simp add: digitValue_def less_eq_char_def)

lemma timeToMinutes_HHMM:
  assumes "isDigit h1" "isDigit h2" "isDigit m1" "isDigit m2"
  shows "timeToMinutes [h1, h2, CHR '':'', m1, m2] =
           Some ((10 * digitValue h1 + digitValue h2) * 60 + (10 * digitValue m1 + digitValue m2))"
  using assms isDigit_range[of h1] isDigit_range[of h2] isDigit_range[of m1] isDigit_range[of m2]
  by (simp add: timeToMinutes_def toNumber_def decimal_def)

lemma timeToMinutes_timeFormat:
  "regexTest timeFormat tm \<Longrightarrow> \<exists>m. timeToMinutes tm = Some m"
  unfolding regexTest_timeFormat using timeToMinutes_HHMM by blast

text \<open>
  On clock times (\<open>HH:MM\<close> with minutes below 60) the order of the character
  codes is the order of the clock.
\<close>

lemma codeUnitCompare_clock:
  assumes s: "s = [h1, h2, CHR '':'', m1, m2]" "isDigit h1" "isDigit h2" "isDigit m1" "isDigit m2"
    and t: "t = [k1, k2, CHR '':'', n1, n2]" "isDigit k1" "isDigit k2" "isDigit n1" "isDigit n2"
    and minutes: "10 * digitValue m1 + digitValue m2 < 60" "10 * digitValue n1 + digitValue n2 < 60"
    and ms: "timeToMinutes s = Some ms" and mt: "timeToMinutes t = Some mt"
    and le: "codeUnitCompare s t \<le> 0"
  shows "ms \<le> mt"
proof -
  from ms s have ms': "ms = (10 * digitValue h1 + digitValue h2) * 60 + (10 * digitValue m1 + digitValue m2)"
    by (simp add: timeToMinutes_HHMM)
  from mt t have mt': "mt = (10 * digitValue k1 + digitValue k2) * 60 + (10 * digitValue n1 + digitValue n2)"
    by (simp add: timeToMinutes_HHMM)
  from le have "s \<le> t"
    by (auto simp: codeUnitCompare_def split: if_splits)
  then have "h1 < k1 \<or> (h1 = k1 \<and> (h2 < k2 \<or> (h2 = k2 \<and> (m1 < n1 \<or> (m1 = n1 \<and> m2 \<le> n2)))))"
    unfolding s(1) t(1) by auto
  then have lex: "digitValue h1 < digitValue k1
     \<or> (digitValue h1 = digitValue k1 \<and> (digitValue h2 < digitValue k2
     \<or> (digitValue h2 = digitValue k2 \<and> (digitValue m1 < digitValue n1
     \<or> (digitValue m1 = digitValue n1 \<and> digitValue m2 \<le> digitValue n2)))))"
    unfolding digitValue_mono digitValue_inj digitValue_le .
  from isDigit_range[OF s(2)] isDigit_range[OF s(3)] isDigit_range[OF s(4)] isDigit_range[OF s(5)]
    isDigit_range[OF t(2)] isDigit_range[OF t(3)] isDigit_range[OF t(4)] isDigit_range[OF t(5)]
    lex minutes
  show ?thesis unfolding ms' mt' by (elim disjE conjE) (simp_all add: algebra_simps)
qed


section \<open>Properties of the availability queries\<close>

subsection \<open>Point check\<close>

lemma nullish_countValue [simp]: "\<not> nullish (countValue c)"
  by (simp add: nullish_def countValue_def)

lemma orNull_simps [simp]:
  "orNull Undefined = Null" "orNull Null = Null" "orNull (countValue c) = countValue c"
  by (simp_all add: orNull_def nullish_def countValue_def)

lemma countValue_inject [simp]: "countValue c = countValue c' \<longleftrightarrow> c = c'"
  by (simp add: countValue_def)

lemma countValue_not_Null [simp]: "countValue c \<noteq> Null" "Null \<noteq> countValue c"
  by (simp_all add: countValue_def)

lemma checkAvailability_path:
  assumes "map_of a r = Some dates" "map_of dates d = Some slots" "map_of slots t = Some c"
  shows "checkAvailability host a r d t = Inr (countValue c)"
    and "checkAvailability_gen host a r d t = Inr (countValue c)"
  using assms by (simp_all add: checkAvailability_def checkAvailability_gen_def)

lemma checkAvailability_no_path:
  assumes "\<not> (\<exists>dates slots c. map_of a r = Some dates \<and> map_of dates d = Some slots \<and> map_of slots t = Some c)"
    and "inheritedProperty host r = Undefined" "inheritedProperty host d = Undefined"
      "inheritedProperty host t = Undefined"
  shows "checkAvailability host a r d t = Inr Null"
    and "checkAvailability_gen host a r d t = Inr Null"
  using assms
  by (auto simp: checkAvailability_def checkAvailability_gen_def andThen_def nullish_def
      split: option.splits)

text \<open>
  Claim C7, as amended. A property read follows the prototype chain, so a key that
  names an inherited property reaches a value of the host that the mapping does not
  store (\<open>checkAvailability_inherited_path\<close>: the path \<open>r1\<close>, \<open>toString\<close>,
  \<open>length\<close> gives the count 0), and a getter of the host may throw. For every
  availability mapping and every (restaurant, date, time): when the whole key path
  restaurant, date, time exists, \<open>checkAvailability\<close> (in both copies) returns the
  stored count, a count of 0 included; when none of the three keys names an inherited
  property, it returns the stored count exactly when the whole key path exists and the
  not-found value \<open>null\<close> otherwise, and it throws nothing. \<open>null\<close> is not a count.
\<close>

theorem checkAvailability_found_iff_path:
  "(\<forall>dates slots c. map_of a r = Some dates \<longrightarrow> map_of dates d = Some slots \<longrightarrow> map_of slots t = Some c
        \<longrightarrow> checkAvailability host a r d t = Inr (countValue c)
          \<and> checkAvailability_gen host a r d t = Inr (countValue c))
   \<and> (inheritedProperty host r = Undefined \<and> inheritedProperty host d = Undefined
        \<and> inheritedProperty host t = Undefined \<longrightarrow>
        (\<forall>c. checkAvailability host a r d t = Inr (countValue c) \<longleftrightarrow>
           (\<exists>dates slots. map_of a r = Some dates \<and> map_of dates d = Some slots \<and> map_of slots t = Some c))
        \<and> (checkAvailability host a r d t = Inr Null \<longleftrightarrow>
           \<not> (\<exists>dates slots c'. map_of a r = Some dates \<and> map_of dates d = Some slots \<and> map_of slots t = Some c'))
        \<and> (\<forall>e. checkAvailability host a r d t \<noteq> Inl e)
        \<and> checkAvailability_gen host a r d t = checkAvailability host a r d t)
   \<and> (\<forall>c. Null \<noteq> countValue c)"
proof (intro conjI allI impI)
  fix dates slots c
  assume "map_of a r = Some dates" "map_of dates d = Some slots" "map_of slots t = Some c"
  then show "checkAvailability host a r d t = Inr (countValue c)"
    and "checkAvailability_gen host a r d t = Inr (countValue c)"
    by (rule checkAvailability_path)+
next
  assume u: "inheritedProperty host r = Undefined \<and> inheritedProperty host d = Undefined
        \<and> inheritedProperty host t = Undefined"
  have cases: "(\<exists>dates slots c. map_of a r = Some dates \<and> map_of dates d = Some slots \<and> map_of slots t = Some c
                  \<and> checkAvailability host a r d t = Inr (countValue c)
                  \<and> checkAvailability_gen host a r d t = Inr (countValue c))
      \<or> (\<not> (\<exists>dates slots c. map_of a r = Some dates \<and> map_of dates d = Some slots \<and> map_of slots t = Some c)
           \<and> checkAvailability host a r d t = Inr Null
           \<and> checkAvailability_gen host a r d t = Inr Null)"
    using checkAvailability_path[of a r _ d _ t _ host] checkAvailability_no_path[of a r d t host] u
    by blast
  {
    fix c
    from cases
    show "checkAvailability host a r d t = Inr (countValue c) \<longleftrightarrow>
           (\<exists>dates slots. map_of a r = Some dates \<and> map_of dates d = Some slots \<and> map_of slots t = Some c)"
      by auto
  }
  from cases
  show "checkAvailability host a r d t = Inr Null \<longleftrightarrow>
           \<not> (\<exists>dates slots c'. map_of a r = Some dates \<and> map_of dates d = Some slots \<and> map_of slots t = Some c')"
    by auto
  {
    fix e
    from cases show "checkAvailability host a r d t \<noteq> Inl e" by auto
  }
  from cases show "checkAvailability_gen host a r d t = checkAvailability host a r d t" by auto
next
  fix c show "Null \<noteq> countValue c" by simp
qed

theorem checkAvailability_found_iff_path_witness:
  "checkAvailability exampleHost exampleAvailability ''r1'' ''2025-11-03'' ''11:30'' = Inr (countValue 0)
   \<and> checkAvailability exampleHost exampleAvailability ''r1'' ''2025-11-03'' ''23:00'' = Inr Null
   \<and> checkAvailability_gen exampleHost exampleAvailability ''r1'' ''2025-11-03'' ''23:00'' = Inr Null"
proof -
  note main = checkAvailability_found_iff_path[of exampleAvailability "''r1''" "''2025-11-03''" "''23:00''" exampleHost]
  note found = checkAvailability_found_iff_path[of exampleAvailability "''r1''" "''2025-11-03''" "''11:30''" exampleHost]
  have u: "inheritedProperty exampleHost ''r1'' = Undefined
      \<and> inheritedProperty exampleHost ''2025-11-03'' = Undefined
      \<and> inheritedProperty exampleHost ''23:00'' = Undefined"
    by (simp add: exampleHost_def exampleInherited_def exampleMethods_def)
  have p: "map_of exampleAvailability ''r1'' =
      Some [(''2025-11-03'', [(''19:00'', 2), (''11:30'', 0), (''12:00'', 5), (''19:30'', 1), (''18:30'', 4)])]"
    by (simp add: exampleAvailability_def)
  have q: "map_of [(''2025-11-03'', [(''19:00'', 2::int), (''11:30'', 0), (''12:00'', 5), (''19:30'', 1), (''18:30'', 4)])] ''2025-11-03''
      = Some [(''19:00'', 2), (''11:30'', 0), (''12:00'', 5), (''19:30'', 1), (''18:30'', 4)]"
    by simp
  have s: "map_of [(''19:00'', 2::int), (''11:30'', 0), (''12:00'', 5), (''19:30'', 1), (''18:30'', 4)] ''11:30'' = Some 0"
    by simp
  have n: "\<not> (\<exists>dates slots c'. map_of exampleAvailability ''r1'' = Some dates
          \<and> map_of dates ''2025-11-03'' = Some slots \<and> map_of slots ''23:00'' = Some c')"
    by (simp add: exampleAvailability_def)
  from found p q s
  have "checkAvailability exampleHost exampleAvailability ''r1'' ''2025-11-03'' ''11:30'' = Inr (countValue 0)"
    by blast
  moreover from main u n
  have "checkAvailability exampleHost exampleAvailability ''r1'' ''2025-11-03'' ''23:00'' = Inr Null"
    by blast
  moreover from main u this
  have "checkAvailability_gen exampleHost exampleAvailability ''r1'' ''2025-11-03'' ''23:00'' = Inr Null"
    by simp
  ultimately show ?thesis by simp
qed

text \<open>
  The claim as first stated fails: in a host with the standard \<open>Object.prototype\<close>
  the keys \<open>r1\<close>, \<open>toString\<close>, \<open>length\<close> are not a key path of the example
  mapping (\<open>r1\<close> has no date \<open>toString\<close>), and both copies return the count 0,
  the \<open>length\<close> of the inherited function.
\<close>

theorem checkAvailability_inherited_path:
  "checkAvailability exampleHost exampleAvailability ''r1'' ''toString'' ''length'' = Inr (countValue 0)
   \<and> checkAvailability_gen exampleHost exampleAvailability ''r1'' ''toString'' ''length'' = Inr (countValue 0)
   \<and> map_of exampleAvailability ''r1'' =
        Some [(''2025-11-03'', [(''19:00'', 2), (''11:30'', 0), (''12:00'', 5), (''19:30'', 1), (''18:30'', 4)])]
   \<and> map_of [(''2025-11-03'', [(''19:00'', 2::int), (''11:30'', 0), (''12:00'', 5), (''19:30'', 1), (''18:30'', 4)])]
        ''toString'' = None"
  by (simp add: checkAvailability_def checkAvailability_gen_def exampleAvailability_def
      exampleHost_def exampleInherited_def exampleProperty_def exampleMethods_def andThen_def
      nullish_def orNull_def countValue_def)

subsection \<open>The sort\<close>


lemma mset_insort_by: "mset (insort_by le x ys) = add_mset x (mset ys)"
  by (induction ys) auto

lemma mset_sort_by: "mset (sort_by le xs) = mset xs"
  by (induction xs) (auto simp: sort_by_def mset_insort_by)


lemma length_sort_by: "length (sort_by le xs) = length xs"
  by (metis mset_sort_by size_mset)











subsection \<open>Slot enumeration\<close>













subsection \<open>Alternative slots\<close>






subsection \<open>Several restaurants at once\<close>



lemma orZero_simps [simp]: "orZero Null = countValue 0" "orZero (countValue c) = countValue c"
  by (simp_all add: orZero_def countValue_def)


section \<open>Properties of booking validation\<close>

lemmas message_defs = pastDateError_def tooSmallError_def tooLargeError_def timeFormatError_def


lemma validateBooking_errors:
  "errors (validateBooking today date tm n) =
     (if isDateInPast today date then [pastDateError] else [])
     @ (if n < 1 then [tooSmallError] else [])
     @ (if n > 20 then [tooLargeError] else [])
     @ (if \<not> regexTest timeFormat tm then [timeFormatError] else [])"
  by (simp add: validateBooking_def Let_def message_defs)

lemma validateBooking_valid:
  "valid (validateBooking today date tm n) \<longleftrightarrow> errors (validateBooking today date tm n) = []"
  by (simp add: validateBooking_def Let_def)

lemma validateBooking_valid_iff:
  "valid (validateBooking today date tm n) \<longleftrightarrow>
     \<not> isDateInPast today date \<and> 1 \<le> n \<and> n \<le> 20 \<and> regexTest timeFormat tm"
  unfolding validateBooking_valid validateBooking_errors by auto


lemma regex_examples:
  "regexTest timeFormat ''07:00''" "\<not> regexTest timeFormat ''7:00''" "regexTest timeFormat ''99:99''"
  by (simp_all add: timeFormat_def isDigit_def)


lemma parseDate_examples:
  "parseDate ''2025-11-02'' = Some \<lparr>year = 2025, month = 11, day = 2\<rparr>"
  "parseDate ''2025-11-03'' = Some \<lparr>year = 2025, month = 11, day = 3\<rparr>"
  by (simp_all add: parseDate_def isDigit_def decimal_def digitValue_def daysInMonth_def)



text \<open>
  Claim C9. \<open>validateBooking\<close> checks the shape of the time string only. For a date
  that is not in the past and a party size from 1 to 20, every time string made of two
  digits, a colon and two digits is valid, with no error: among them \<open>99:99\<close>, which
  is no time of day (its minutes since midnight exceed a day's), and \<open>23:45\<close>, which
  is not one of the generator's time slots.
\<close>

theorem validateBooking_time_shape_only:
  "(\<not> isDateInPast today date \<and> 1 \<le> n \<and> n \<le> 20
      \<and> tm = [h1, h2, CHR '':'', m1, m2] \<and> isDigit h1 \<and> isDigit h2 \<and> isDigit m1 \<and> isDigit m2
     \<longrightarrow> valid (validateBooking today date tm n) \<and> errors (validateBooking today date tm n) = [])
   \<and> (\<not> isDateInPast today date \<and> 1 \<le> n \<and> n \<le> 20
     \<longrightarrow> valid (validateBooking today date ''99:99'' n) \<and> valid (validateBooking today date ''23:45'' n))
   \<and> timeToMinutes ''99:99'' = Some 6039 \<and> 6039 > (24 * 60 :: int)
   \<and> ''99:99'' \<notin> set timeSlots \<and> ''23:45'' \<notin> set timeSlots"
proof (intro conjI impI)
  assume h: "\<not> isDateInPast today date \<and> 1 \<le> n \<and> n \<le> 20
      \<and> tm = [h1, h2, CHR '':'', m1, m2] \<and> isDigit h1 \<and> isDigit h2 \<and> isDigit m1 \<and> isDigit m2"
  then have "regexTest timeFormat tm"
    unfolding regexTest_timeFormat by blast
  with h show v: "valid (validateBooking today date tm n)"
    unfolding validateBooking_valid_iff by blast
  then show "errors (validateBooking today date tm n) = []"
    unfolding validateBooking_valid .
next
  assume h: "\<not> isDateInPast today date \<and> 1 \<le> n \<and> n \<le> 20"
  have "regexTest timeFormat ''23:45''"
    by (simp add: timeFormat_def isDigit_def)
  with h regex_examples(3)
  show "valid (validateBooking today date ''99:99'' n)" "valid (validateBooking today date ''23:45'' n)"
    unfolding validateBooking_valid_iff by blast+
next
  show "timeToMinutes ''99:99'' = Some 6039"
    by (simp add: timeToMinutes_def toNumber_def isDigit_def decimal_def digitValue_def)
  show "6039 > (24 * 60 :: int)" by simp
  show "''99:99'' \<notin> set timeSlots" "''23:45'' \<notin> set timeSlots"
    by (simp_all add: timeSlots_def)
qed

theorem validateBooking_time_shape_only_witness:
  "valid (validateBooking \<lparr>year = 2025, month = 11, day = 3\<rparr> ''2025-11-03'' ''99:99'' 4)
   \<and> errors (validateBooking \<lparr>year = 2025, month = 11, day = 3\<rparr> ''2025-11-03'' ''99:99'' 4) = []"
proof -
  have "\<not> isDateInPast \<lparr>year = 2025, month = 11, day = 3\<rparr> ''2025-11-03'' \<and> (1::int) \<le> 4 \<and> (4::int) \<le> 20
      \<and> ''99:99'' = [CHR ''9'', CHR ''9'', CHR '':'', CHR ''9'', CHR ''9'']
      \<and> isDigit CHR ''9'' \<and> isDigit CHR ''9'' \<and> isDigit CHR ''9'' \<and> isDigit CHR ''9''"
    by (simp add: isDateInPast_def parseDate_examples dateBefore_def isDigit_def)
  with validateBooking_time_shape_only[of "\<lparr>year = 2025, month = 11, day = 3\<rparr>" "''2025-11-03''" 4
      "''99:99''" "CHR ''9''" "CHR ''9''" "CHR ''9''" "CHR ''9''"]
  show ?thesis by blast
qed

section \<open>Properties of applying a booking\<close>

lemma parseCounts_eq: "parseCounts slots h = (Ref (length h), h @ [countsObject slots])"
  by (simp add: parseCounts_def allocate_def countsObject_def)

lemma stringifyCounts_countsObject: "stringifyCounts (countsObject slots) = Some slots"
  by (induction slots) (auto simp: countsObject_def countValue_def)

subsection \<open>Parsing extends the heap\<close>

lemma parseDateProps_extends: "\<exists>ext. snd (parseDateProps dates h) = h @ ext"
proof (induction dates arbitrary: h)
  case Nil
  show ?case by simp
next
  case (Cons p dates)
  obtain k slots where p: "p = (k, slots)" by (cases p)
  from Cons[of "h @ [countsObject slots]"] obtain ext where
    "snd (parseDateProps dates (h @ [countsObject slots])) = (h @ [countsObject slots]) @ ext" ..
  then show ?case
    by (simp add: p parseCounts_eq split_beta)
qed

lemma parseDates_extends: "\<exists>ext. snd (parseDates dates h) = h @ ext"
proof -
  from parseDateProps_extends[of dates h] obtain ext where
    "snd (parseDateProps dates h) = h @ ext" ..
  then show ?thesis
    by (simp add: parseDates_def allocate_def split_beta)
qed

lemma parseRestaurantProps_extends: "\<exists>ext. snd (parseRestaurantProps av h) = h @ ext"
proof (induction av arbitrary: h)
  case Nil
  show ?case by simp
next
  case (Cons p av)
  obtain k dates where p: "p = (k, dates)" by (cases p)
  from parseDates_extends[of dates h] obtain e1 where
    e1: "snd (parseDates dates h) = h @ e1" ..
  from Cons[of "snd (parseDates dates h)"] obtain e2 where
    "snd (parseRestaurantProps av (snd (parseDates dates h))) = snd (parseDates dates h) @ e2" ..
  with e1 show ?case
    by (simp add: p split_beta)
qed

lemma parse_extends: "\<exists>ext. snd (parse av h) = h @ ext"
proof -
  from parseRestaurantProps_extends[of av h] obtain ext where
    "snd (parseRestaurantProps av h) = h @ ext" ..
  then show ?thesis
    by (simp add: parse_def allocate_def split_beta)
qed

subsection \<open>Reading is stable when the heap grows\<close>

lemma objectAt_append: "objectAt h v = Some ob \<Longrightarrow> objectAt (h @ ext) v = Some ob"
  by (auto simp: objectAt_def nth_append split: jsvalue.splits if_splits)

lemma stringifyDates_append:
  "stringifyDates h ps = Some dates \<Longrightarrow> stringifyDates (h @ ext) ps = Some dates"
proof (induction ps arbitrary: dates)
  case Nil
  then show ?case by simp
next
  case (Cons p ps)
  obtain k v where p: "p = (k, v)" by (cases p)
  from Cons.prems obtain slots rest where
    s: "Option.bind (objectAt h v) stringifyCounts = Some slots"
    and r: "stringifyDates h ps = Some rest" and d: "dates = (k, slots) # rest"
    by (auto simp: p split: option.splits)
  from s obtain ob where ob: "objectAt h v = Some ob" "stringifyCounts ob = Some slots"
    by (auto simp: bind_eq_Some_conv)
  from ob(1) have "objectAt (h @ ext) v = Some ob" by (rule objectAt_append)
  with ob(2) Cons.IH[OF r] show ?case by (simp add: p d)
qed

lemma stringifyRestaurants_append:
  "stringifyRestaurants h ps = Some av \<Longrightarrow> stringifyRestaurants (h @ ext) ps = Some av"
proof (induction ps arbitrary: av)
  case Nil
  then show ?case by simp
next
  case (Cons p ps)
  obtain k v where p: "p = (k, v)" by (cases p)
  from Cons.prems obtain dates rest where
    s: "Option.bind (objectAt h v) (stringifyDates h) = Some dates"
    and r: "stringifyRestaurants h ps = Some rest" and d: "av = (k, dates) # rest"
    by (auto simp: p split: option.splits)
  from s obtain ob where ob: "objectAt h v = Some ob" "stringifyDates h ob = Some dates"
    by (auto simp: bind_eq_Some_conv)
  from ob(1) have "objectAt (h @ ext) v = Some ob" by (rule objectAt_append)
  moreover from ob(2) have "stringifyDates (h @ ext) ob = Some dates" by (rule stringifyDates_append)
  ultimately show ?case using Cons.IH[OF r] by (simp add: p d)
qed

lemma stringify_append:
  "stringify h v = Some av \<Longrightarrow> stringify (h @ ext) v = Some av"
  by (auto simp: stringify_def bind_eq_Some_conv objectAt_append stringifyRestaurants_append)

lemma stringify_prefix:
  assumes "stringify h v = Some av" "take (length h) h' = h"
  shows "stringify h' v = Some av"
proof -
  from assms(2) have "h' = h @ drop (length h) h'"
    by (metis append_take_drop_id)
  with stringify_append[OF assms(1), of "drop (length h) h'"] show ?thesis by simp
qed

subsection \<open>Parsing what was written reads back the same\<close>

lemma parseDateProps_roundtrip:
  "stringifyDates (snd (parseDateProps dates h)) (fst (parseDateProps dates h)) = Some dates"
proof (induction dates arbitrary: h)
  case Nil
  show ?case by simp
next
  case (Cons p dates)
  obtain k slots where p: "p = (k, slots)" by (cases p)
  let ?h1 = "h @ [countsObject slots]"
  let ?r = "parseDateProps dates ?h1"
  from parseDateProps_extends[of dates ?h1] obtain ext where ext: "snd ?r = ?h1 @ ext" ..
  have "objectAt (snd ?r) (Ref (length h)) = Some (countsObject slots)"
    by (simp add: ext objectAt_def nth_append)
  with Cons[of ?h1] show ?case
    by (simp add: p parseCounts_eq split_beta stringifyCounts_countsObject)
qed

lemma parseDates_roundtrip:
  "Option.bind (objectAt (snd (parseDates dates h)) (fst (parseDates dates h)))
     (stringifyDates (snd (parseDates dates h))) = Some dates"
proof -
  let ?r = "parseDateProps dates h"
  have "stringifyDates (snd ?r @ [fst ?r]) (fst ?r) = Some dates"
    using parseDateProps_roundtrip by (rule stringifyDates_append)
  then show ?thesis
    by (simp add: parseDates_def allocate_def split_beta objectAt_def)
qed

lemma parseRestaurantProps_roundtrip:
  "stringifyRestaurants (snd (parseRestaurantProps av h)) (fst (parseRestaurantProps av h)) = Some av"
proof (induction av arbitrary: h)
  case Nil
  show ?case by simp
next
  case (Cons p av)
  obtain k dates where p: "p = (k, dates)" by (cases p)
  let ?d = "parseDates dates h"
  let ?r = "parseRestaurantProps av (snd ?d)"
  from parseRestaurantProps_extends[of av "snd ?d"] obtain ext where ext: "snd ?r = snd ?d @ ext" ..
  from parseDates_roundtrip[of dates h] obtain ob where
    ob: "objectAt (snd ?d) (fst ?d) = Some ob" "stringifyDates (snd ?d) ob = Some dates"
    by (auto simp: bind_eq_Some_conv)
  from ob(1) have "objectAt (snd ?r) (fst ?d) = Some ob"
    unfolding ext by (rule objectAt_append)
  moreover from ob(2) have "stringifyDates (snd ?r) ob = Some dates"
    unfolding ext by (rule stringifyDates_append)
  ultimately show ?case
    using Cons[of "snd ?d"] by (simp add: p split_beta)
qed

lemma parse_roundtrip: "stringify (snd (parse av h)) (fst (parse av h)) = Some av"
proof -
  let ?r = "parseRestaurantProps av h"
  have "stringifyRestaurants (snd ?r @ [fst ?r]) (fst ?r) = Some av"
    using parseRestaurantProps_roundtrip by (rule stringifyRestaurants_append)
  then show ?thesis
    by (simp add: parse_def allocate_def split_beta stringify_def objectAt_def)
qed

subsection \<open>Parsing does not look at the objects already there\<close>

lemma parseDateProps_update:
  "a < length h \<Longrightarrow>
     parseDateProps dates (h[a := ob]) =
       (fst (parseDateProps dates h), (snd (parseDateProps dates h))[a := ob])"
proof (induction dates arbitrary: h)
  case Nil
  show ?case by simp
next
  case (Cons p dates)
  obtain k slots where p: "p = (k, slots)" by (cases p)
  from Cons.prems have "a < length (h @ [countsObject slots])" by simp
  from Cons.IH[OF this] Cons.prems show ?case
    by (simp add: p parseCounts_eq split_beta list_update_append1)
qed

lemma parseDates_update:
  assumes "a < length h"
  shows "parseDates dates (h[a := ob]) = (fst (parseDates dates h), (snd (parseDates dates h))[a := ob])"
proof -
  from parseDateProps_extends[of dates h] obtain ext where
    ext: "snd (parseDateProps dates h) = h @ ext" ..
  with assms have "a < length (snd (parseDateProps dates h))" by simp
  then show ?thesis
    using assms by (simp add: parseDates_def allocate_def split_beta parseDateProps_update list_update_append1)
qed

lemma parseRestaurantProps_update:
  "a < length h \<Longrightarrow>
     parseRestaurantProps av (h[a := ob]) =
       (fst (parseRestaurantProps av h), (snd (parseRestaurantProps av h))[a := ob])"
proof (induction av arbitrary: h)
  case Nil
  show ?case by simp
next
  case (Cons p av)
  obtain k dates where p: "p = (k, dates)" by (cases p)
  from parseDates_extends[of dates h] obtain ext where
    ext: "snd (parseDates dates h) = h @ ext" ..
  with Cons.prems have "a < length (snd (parseDates dates h))" by simp
  from Cons.IH[OF this] Cons.prems show ?case
    by (simp add: p split_beta parseDates_update)
qed

subsection \<open>Where the clone keeps a slot object, and what writing it amounts to\<close>

lemma parseDateProps_missing:
  "map_of dates d = None \<Longrightarrow> map_of (fst (parseDateProps dates h)) d = None"
  by (induction dates arbitrary: h) (auto simp: split_beta)

lemma parseDateProps_entry:
  assumes "map_of dates d = Some slots"
  shows "\<exists>a. map_of (fst (parseDateProps dates h)) d = Some (Ref a)
           \<and> length h \<le> a \<and> a < length (snd (parseDateProps dates h))
           \<and> snd (parseDateProps dates h) ! a = countsObject slots
           \<and> parseDateProps (AList.map_entry d g dates) h =
               (fst (parseDateProps dates h), (snd (parseDateProps dates h))[a := countsObject (g slots)])"
  using assms
proof (induction dates arbitrary: h)
  case Nil
  then show ?case by simp
next
  case (Cons p dates)
  obtain k sl where p: "p = (k, sl)" by (cases p)
  let ?h1 = "h @ [countsObject sl]"
  let ?r = "parseDateProps dates ?h1"
  from parseDateProps_extends[of dates ?h1] obtain ext where ext: "snd ?r = ?h1 @ ext" ..
  have res: "parseDateProps (p # dates) h = ((k, Ref (length h)) # fst ?r, snd ?r)"
    by (simp add: p parseCounts_eq split_beta)
  show ?case
  proof (cases "k = d")
    case True
    with Cons.prems have sl: "sl = slots" by (simp add: p)
    have "parseDateProps dates (?h1[length h := countsObject (g slots)]) =
            (fst ?r, (snd ?r)[length h := countsObject (g slots)])"
      by (rule parseDateProps_update) simp
    then have "parseDateProps (AList.map_entry d g (p # dates)) h =
            ((k, Ref (length h)) # fst ?r, (snd ?r)[length h := countsObject (g slots)])"
      by (simp add: p True sl parseCounts_eq split_beta)
    moreover have "snd ?r ! length h = countsObject sl" "length h < length (snd ?r)"
      unfolding ext by (simp_all add: nth_append)
    then have "snd ?r ! length h = countsObject slots" "length h < length (snd ?r)"
      unfolding sl .
    ultimately show ?thesis
      unfolding res using True by (intro exI[of _ "length h"]) simp
  next
    case False
    with Cons.prems have "map_of dates d = Some slots" by (simp add: p)
    from Cons.IH[OF this, of ?h1] obtain a where
      a: "map_of (fst ?r) d = Some (Ref a)" "length ?h1 \<le> a" "a < length (snd ?r)"
         "snd ?r ! a = countsObject slots"
         "parseDateProps (AList.map_entry d g dates) ?h1 = (fst ?r, (snd ?r)[a := countsObject (g slots)])"
      by blast
    from a(5) have "parseDateProps (AList.map_entry d g (p # dates)) h =
            ((k, Ref (length h)) # fst ?r, (snd ?r)[a := countsObject (g slots)])"
      by (simp add: p False parseCounts_eq split_beta)
    with a show ?thesis
      unfolding res using False by (intro exI[of _ a]) simp
  qed
qed

lemma parseDates_missing:
  assumes "map_of dates d = None"
  shows "\<exists>b. fst (parseDates dates h) = Ref b \<and> b < length (snd (parseDates dates h))
           \<and> map_of (snd (parseDates dates h) ! b) d = None"
  using parseDateProps_missing[OF assms, of h]
  by (simp add: parseDates_def allocate_def split_beta)

lemma parseDates_entry:
  assumes "map_of dates d = Some slots"
  shows "\<exists>b a. fst (parseDates dates h) = Ref b \<and> b < length (snd (parseDates dates h))
           \<and> map_of (snd (parseDates dates h) ! b) d = Some (Ref a)
           \<and> length h \<le> a \<and> a < length (snd (parseDates dates h))
           \<and> snd (parseDates dates h) ! a = countsObject slots
           \<and> parseDates (AList.map_entry d g dates) h =
               (fst (parseDates dates h), (snd (parseDates dates h))[a := countsObject (g slots)])"
proof -
  let ?r = "parseDateProps dates h"
  from parseDateProps_entry[OF assms, of h g] obtain a where
    a: "map_of (fst ?r) d = Some (Ref a)" "length h \<le> a" "a < length (snd ?r)"
       "snd ?r ! a = countsObject slots"
       "parseDateProps (AList.map_entry d g dates) h = (fst ?r, (snd ?r)[a := countsObject (g slots)])"
    by blast
  have res: "parseDates dates h = (Ref (length (snd ?r)), snd ?r @ [fst ?r])"
    by (simp add: parseDates_def allocate_def split_beta)
  from a(3,5) have upd: "parseDates (AList.map_entry d g dates) h =
      (Ref (length (snd ?r)), (snd ?r @ [fst ?r])[a := countsObject (g slots)])"
    by (simp add: parseDates_def allocate_def list_update_append1)
  from a upd show ?thesis
    unfolding res by (intro exI[of _ "length (snd ?r)"] exI[of _ a]) (simp add: nth_append)
qed

lemma parseRestaurantProps_missing:
  "map_of av r = None \<Longrightarrow> map_of (fst (parseRestaurantProps av h)) r = None"
  by (induction av arbitrary: h) (auto simp: split_beta)

lemma parseRestaurantProps_missing_date:
  assumes "map_of av r = Some dates" "map_of dates d = None"
  shows "\<exists>b. map_of (fst (parseRestaurantProps av h)) r = Some (Ref b)
           \<and> b < length (snd (parseRestaurantProps av h))
           \<and> map_of (snd (parseRestaurantProps av h) ! b) d = None"
  using assms(1)
proof (induction av arbitrary: h)
  case Nil
  then show ?case by simp
next
  case (Cons p av)
  obtain k ds where p: "p = (k, ds)" by (cases p)
  let ?d = "parseDates ds h"
  let ?r = "parseRestaurantProps av (snd ?d)"
  from parseRestaurantProps_extends[of av "snd ?d"] obtain ext where ext: "snd ?r = snd ?d @ ext" ..
  have res: "parseRestaurantProps (p # av) h = ((k, fst ?d) # fst ?r, snd ?r)"
    by (simp add: p split_beta)
  show ?case
  proof (cases "k = r")
    case True
    with Cons.prems have "ds = dates" by (simp add: p)
    with parseDates_missing[OF assms(2), of h] obtain b where
      "fst ?d = Ref b" "b < length (snd ?d)" "map_of (snd ?d ! b) d = None" by blast
    then show ?thesis
      unfolding res using True by (intro exI[of _ b]) (simp add: ext nth_append)
  next
    case False
    with Cons.prems have "map_of av r = Some dates" by (simp add: p)
    from Cons.IH[OF this, of "snd ?d"] show ?thesis
      unfolding res using False by simp
  qed
qed

lemma parseRestaurantProps_entry:
  assumes "map_of av r = Some dates" "map_of dates d = Some slots"
  shows "\<exists>b a. map_of (fst (parseRestaurantProps av h)) r = Some (Ref b)
           \<and> b < length (snd (parseRestaurantProps av h))
           \<and> map_of (snd (parseRestaurantProps av h) ! b) d = Some (Ref a)
           \<and> length h \<le> a \<and> a < length (snd (parseRestaurantProps av h))
           \<and> snd (parseRestaurantProps av h) ! a = countsObject slots
           \<and> parseRestaurantProps (AList.map_entry r (AList.map_entry d g) av) h =
               (fst (parseRestaurantProps av h),
                (snd (parseRestaurantProps av h))[a := countsObject (g slots)])"
  using assms(1)
proof (induction av arbitrary: h)
  case Nil
  then show ?case by simp
next
  case (Cons p av)
  obtain k ds where p: "p = (k, ds)" by (cases p)
  let ?d = "parseDates ds h"
  let ?r = "parseRestaurantProps av (snd ?d)"
  from parseRestaurantProps_extends[of av "snd ?d"] obtain ext where ext: "snd ?r = snd ?d @ ext" ..
  from parseDates_extends[of ds h] obtain e0 where e0: "snd ?d = h @ e0" ..
  have res: "parseRestaurantProps (p # av) h = ((k, fst ?d) # fst ?r, snd ?r)"
    by (simp add: p split_beta)
  show ?case
  proof (cases "k = r")
    case True
    with Cons.prems assms(2) have md: "map_of ds d = Some slots" by (simp add: p)
    from parseDates_entry[OF md, of h g] obtain b a where
      ba: "fst ?d = Ref b" "b < length (snd ?d)"
          "map_of (snd ?d ! b) d = Some (Ref a)"
          "length h \<le> a" "a < length (snd ?d)"
          "snd ?d ! a = countsObject slots"
          "parseDates (AList.map_entry d g ds) h = (fst ?d, (snd ?d)[a := countsObject (g slots)])"
      by blast
    have "parseRestaurantProps av ((snd ?d)[a := countsObject (g slots)]) =
            (fst ?r, (snd ?r)[a := countsObject (g slots)])"
      using ba(5) by (rule parseRestaurantProps_update)
    with ba(7) have "parseRestaurantProps (AList.map_entry r (AList.map_entry d g) (p # av)) h =
            ((k, fst ?d) # fst ?r, (snd ?r)[a := countsObject (g slots)])"
      by (simp add: p True split_beta)
    moreover from ba(2,5) have "snd ?r ! b = snd ?d ! b" "snd ?r ! a = snd ?d ! a"
      "b < length (snd ?r)" "a < length (snd ?r)"
      unfolding ext by (simp_all add: nth_append)
    ultimately show ?thesis
      unfolding res using True ba
      by (intro exI[of _ b] exI[of _ a]) simp
  next
    case False
    with Cons.prems have "map_of av r = Some dates" by (simp add: p)
    from Cons.IH[OF this, of "snd ?d"] obtain b a where
      ba: "map_of (fst ?r) r = Some (Ref b)" "b < length (snd ?r)"
          "map_of (snd ?r ! b) d = Some (Ref a)"
          "length (snd ?d) \<le> a" "a < length (snd ?r)"
          "snd ?r ! a = countsObject slots"
          "parseRestaurantProps (AList.map_entry r (AList.map_entry d g) av) (snd ?d) =
             (fst ?r, (snd ?r)[a := countsObject (g slots)])"
      by blast
    from ba(7) have "parseRestaurantProps (AList.map_entry r (AList.map_entry d g) (p # av)) h =
            ((k, fst ?d) # fst ?r, (snd ?r)[a := countsObject (g slots)])"
      by (simp add: p False split_beta)
    moreover from ba(4) have "length h \<le> a" unfolding e0 by simp
    ultimately show ?thesis
      unfolding res using False ba
      by (intro exI[of _ b] exI[of _ a]) simp
  qed
qed

subsection \<open>The update on the heap and on the value\<close>

lemma map_entry_missing: "map_of xs k = None \<Longrightarrow> AList.map_entry k f xs = xs"
  by (induction xs) (auto split: if_splits)

lemma map_entry_same: "map_of xs k = Some v \<Longrightarrow> f v = v \<Longrightarrow> AList.map_entry k f xs = xs"
  by (induction xs) (auto split: if_splits)

lemma map_of_countsObject: "map_of (countsObject slots) t = map_option countValue (map_of slots t)"
  by (induction slots) (auto simp: countsObject_def)

lemma countsObject_map_entry:
  "map_of slots t = Some n \<Longrightarrow>
     AList.update t (countValue (f n)) (countsObject slots) = countsObject (AList.map_entry t f slots)"
  by (induction slots) (auto simp: countsObject_def split: if_splits)

lemma parse_eq:
  "parse av h =
     (Ref (length (snd (parseRestaurantProps av h))),
      snd (parseRestaurantProps av h) @ [fst (parseRestaurantProps av h)])"
  by (simp add: parse_def allocate_def split_beta)

lemma stringify_is_ref:
  assumes "stringify h v = Some av"
  shows "\<exists>a. v = Ref a \<and> a < length h"
  using assms by (auto simp: stringify_def objectAt_def bind_eq_Some_conv split: jsvalue.splits if_splits)

lemma tables_after:
  assumes "\<bar>c - k\<bar> \<le> 2 ^ 53"
  shows "mathMax (Finite 0) (numSub (Finite (of_int c)) (Finite (of_int k))) = Finite (of_int (max 0 (c - k)))"
proof -
  have "numSub (Finite (of_int c)) (Finite (of_int k)) = toDouble (of_int (c - k))"
    by (simp add: numSub_def)
  also have "\<dots> = Finite (of_int (c - k))" using assms by (rule toDouble_int)
  finally show ?thesis by (simp add: mathMax_def max_def)
qed

lemma valueToNumber_countValue [simp]: "valueToNumber host (countValue c) = Inr (Finite (of_int c))"
  by (simp add: valueToNumber_def countValue_def)

lemma countValue_not_Undefined [simp]: "countValue c \<noteq> Undefined"
  by (simp add: countValue_def)

lemma update_found:
  assumes av: "stringify h v = Some av"
    and path: "map_of av r = Some dates" "map_of dates d = Some slots" "map_of slots t = Some c"
  shows "\<exists>a b. length h \<le> a \<and> a < length (snd (parseRestaurantProps av h))
           \<and> b < length (snd (parseRestaurantProps av h)) \<and> b \<noteq> a
           \<and> map_of (fst (parseRestaurantProps av h)) r = Some (Ref b)
           \<and> map_of (snd (parseRestaurantProps av h) ! b) d = Some (Ref a)
           \<and> (\<forall>g. parseRestaurantProps (AList.map_entry r (AList.map_entry d g) av) h =
               (fst (parseRestaurantProps av h),
                (snd (parseRestaurantProps av h))[a := countsObject (g slots)]))
           \<and> updateAvailabilityAfterBooking host h v r d t k =
               Some (Inr (Ref (length (snd (parseRestaurantProps av h))),
                      (snd (parseRestaurantProps av h) @ [fst (parseRestaurantProps av h)])
                        [a := AList.update t (Number (mathMax (Finite 0) (numSub (Finite (of_int c)) k)))
                                (countsObject slots)]))"
proof -
  let ?P = "parseRestaurantProps av h"
  let ?c = "length (snd ?P)"
  let ?h1 = "snd ?P @ [fst ?P]"
  from parseRestaurantProps_entry[OF path(1,2), of h id] obtain b a where
    ba: "map_of (fst ?P) r = Some (Ref b)" "b < ?c" "map_of (snd ?P ! b) d = Some (Ref a)"
        "length h \<le> a" "a < ?c" "snd ?P ! a = countsObject slots"
    by blast
  have root: "getProperty host ?h1 (Ref ?c) r = Inr (Ref b)"
    using ba by (simp add: getProperty_def nullish_def objectAt_def)
  have dts: "getProperty host ?h1 (Ref b) d = Inr (Ref a)"
    using ba by (simp add: getProperty_def nullish_def objectAt_def nth_append)
  have cur: "getProperty host ?h1 (Ref a) t = Inr (countValue c)"
    using ba path(3) by (simp add: getProperty_def nullish_def objectAt_def nth_append map_of_countsObject)
  have own: "map_of (?h1 ! a) t \<noteq> None"
    using ba path(3) by (simp add: nth_append map_of_countsObject)
  have put: "putProperty host ?h1 (Ref a) t x = Inr (?h1[a := AList.update t x (countsObject slots)])" for x
    using ba own by (simp add: putProperty_def nullish_def nth_append)
  have res: "updateAvailabilityAfterBooking host h v r d t k =
               Some (Inr (Ref ?c,
                      ?h1[a := AList.update t (Number (mathMax (Finite 0) (numSub (Finite (of_int c)) k)))
                                (countsObject slots)]))"
    by (simp add: updateAvailabilityAfterBooking_def av parse_eq root dts cur put andThen_def
        optionalProperty_def readSlot_def nullish_def)
  have "\<forall>g. parseRestaurantProps (AList.map_entry r (AList.map_entry d g) av) h =
               (fst ?P, (snd ?P)[a := countsObject (g slots)])"
  proof
    fix g
    from parseRestaurantProps_entry[OF path(1,2), of h g] obtain b' a' where
      ba': "map_of (fst ?P) r = Some (Ref b')" "map_of (snd ?P ! b') d = Some (Ref a')"
        "parseRestaurantProps (AList.map_entry r (AList.map_entry d g) av) h =
               (fst ?P, (snd ?P)[a' := countsObject (g slots)])"
      by blast
    from ba'(1) ba(1) have "b' = b" by simp
    with ba'(2) ba(3) have "a' = a" by simp
    with ba'(3) show "parseRestaurantProps (AList.map_entry r (AList.map_entry d g) av) h =
               (fst ?P, (snd ?P)[a := countsObject (g slots)])" by simp
  qed
  moreover have "b \<noteq> a"
  proof
    assume "b = a"
    with ba(3,6) have "map_of (countsObject slots) d = Some (Ref a)" by simp
    then show False by (auto simp: map_of_countsObject countValue_def)
  qed
  ultimately show ?thesis using ba res by (intro exI[of _ a] exI[of _ b]) simp
qed

lemma update_missing:
  assumes av: "stringify h v = Some av"
    and path: "storedCount av r d t = None"
    and fresh: "inheritedProperty host r = Undefined" "inheritedProperty host d = Undefined"
      "inheritedProperty host t = Undefined"
  shows "updateAvailabilityAfterBooking host h v r d t k =
           Some (Inr (Ref (length (snd (parseRestaurantProps av h))),
                   snd (parseRestaurantProps av h) @ [fst (parseRestaurantProps av h)]))"
proof -
  let ?P = "parseRestaurantProps av h"
  let ?c = "length (snd ?P)"
  let ?h1 = "snd ?P @ [fst ?P]"
  have root: "getProperty host ?h1 (Ref ?c) r =
      (case map_of (fst ?P) r of None \<Rightarrow> Inr Undefined | Some x \<Rightarrow> Inr x)"
    by (simp add: getProperty_def nullish_def objectAt_def fresh split: option.splits)
  show ?thesis
  proof (cases "map_of av r")
    case None
    then have "map_of (fst ?P) r = None" by (rule parseRestaurantProps_missing)
    then show ?thesis
      by (simp add: updateAvailabilityAfterBooking_def av parse_eq root andThen_def
          optionalProperty_def nullish_def)
  next
    case (Some dates)
    show ?thesis
    proof (cases "map_of dates d")
      case None
      from parseRestaurantProps_missing_date[OF Some None, of h] obtain b where
        b: "map_of (fst ?P) r = Some (Ref b)" "b < ?c" "map_of (snd ?P ! b) d = None" by blast
      then have "getProperty host ?h1 (Ref b) d = Inr Undefined"
        by (simp add: getProperty_def nullish_def objectAt_def nth_append fresh)
      with b show ?thesis
        by (simp add: updateAvailabilityAfterBooking_def av parse_eq root andThen_def
            optionalProperty_def nullish_def)
    next
      case inner: (Some slots)
      from parseRestaurantProps_entry[OF Some inner, of h id] obtain b a where
        ba: "map_of (fst ?P) r = Some (Ref b)" "b < ?c" "map_of (snd ?P ! b) d = Some (Ref a)"
            "length h \<le> a" "a < ?c" "snd ?P ! a = countsObject slots"
        by blast
      from path Some inner have "map_of slots t = None" by (simp add: storedCount_def)
      with ba have "getProperty host ?h1 (Ref a) t = Inr Undefined"
        by (simp add: getProperty_def nullish_def objectAt_def nth_append map_of_countsObject fresh)
      moreover from ba have "getProperty host ?h1 (Ref b) d = Inr (Ref a)"
        by (simp add: getProperty_def nullish_def objectAt_def nth_append)
      ultimately show ?thesis using ba
        by (simp add: updateAvailabilityAfterBooking_def av parse_eq root andThen_def
            optionalProperty_def nullish_def)
    qed
  qed
qed


lemma update_refines:
  assumes av: "stringify h v = Some av"
    and path: "storedCount av r d t = Some c" and safe: "\<bar>c - k\<bar> \<le> 2 ^ 53"
  shows "\<exists>b h'. updateAvailabilityAfterBooking host h v r d t (Finite (of_int k)) = Some (Inr (Ref b, h'))
           \<and> length h \<le> b
           \<and> take (length h) h' = h
           \<and> stringify h' (Ref b) = Some (decremented av r d t k)"
proof -
  let ?P = "parseRestaurantProps av h"
  let ?c = "length (snd ?P)"
  let ?h1 = "snd ?P @ [fst ?P]"
  let ?g = "AList.map_entry t (\<lambda>c. max 0 (c - k))"
  from path obtain dates slots where
    p: "map_of av r = Some dates" "map_of dates d = Some slots" "map_of slots t = Some c"
    by (auto simp: storedCount_def bind_eq_Some_conv)
  from parseRestaurantProps_extends[of av h] obtain ext where ext: "snd ?P = h @ ext" ..
  from update_found[OF av p, of host "Finite (of_int k)"] obtain a where
    a: "length h \<le> a" "a < ?c"
       "parseRestaurantProps (AList.map_entry r (AList.map_entry d ?g) av) h =
               (fst ?P, (snd ?P)[a := countsObject (?g slots)])"
       "updateAvailabilityAfterBooking host h v r d t (Finite (of_int k)) =
               Some (Inr (Ref ?c,
                      ?h1[a := AList.update t (Number (mathMax (Finite 0) (numSub (Finite (of_int c)) (Finite (of_int k)))))
                                (countsObject slots)]))"
    by blast
  let ?h2 = "?h1[a := countsObject (?g slots)]"
  have "AList.update t (countValue (max 0 (c - k))) (countsObject slots) = countsObject (?g slots)"
    using countsObject_map_entry[OF p(3), of "\<lambda>c. max 0 (c - k)"] by simp
  then have "AList.update t (Number (mathMax (Finite 0) (numSub (Finite (of_int c)) (Finite (of_int k)))))
                                (countsObject slots) = countsObject (?g slots)"
    by (simp only: tables_after[OF safe] countValue_def)
  with a(4) have res: "updateAvailabilityAfterBooking host h v r d t (Finite (of_int k)) = Some (Inr (Ref ?c, ?h2))"
    by simp
  from a(2,3) have "parse (decremented av r d t k) h = (Ref ?c, ?h2)"
    by (simp add: parse_eq decremented_def list_update_append1)
  with parse_roundtrip[of "decremented av r d t k" h]
  have "stringify ?h2 (Ref ?c) = Some (decremented av r d t k)" by simp
  moreover from a(1) have "take (length h) ?h2 = h" by (simp add: ext)
  moreover have "length h \<le> ?c" by (simp add: ext)
  ultimately show ?thesis
    using res by (intro exI[of _ ?c] exI[of _ ?h2]) simp
qed

lemma update_unchanged:
  assumes av: "stringify h v = Some av"
    and path: "storedCount av r d t = None"
    and fresh: "inheritedProperty host r = Undefined" "inheritedProperty host d = Undefined"
      "inheritedProperty host t = Undefined"
  shows "\<exists>b h'. updateAvailabilityAfterBooking host h v r d t k = Some (Inr (Ref b, h'))
           \<and> length h \<le> b
           \<and> take (length h) h' = h
           \<and> stringify h' (Ref b) = Some av"
proof -
  let ?P = "parseRestaurantProps av h"
  let ?c = "length (snd ?P)"
  let ?h1 = "snd ?P @ [fst ?P]"
  from parseRestaurantProps_extends[of av h] obtain ext where ext: "snd ?P = h @ ext" ..
  have "stringify ?h1 (Ref ?c) = Some av"
    using parse_roundtrip[of av h] by (simp add: parse_eq)
  moreover have "take (length h) ?h1 = h" "length h \<le> ?c" by (simp_all add: ext)
  ultimately show ?thesis
    using update_missing[OF av path fresh, of k] by (intro exI[of _ ?c] exI[of _ ?h1]) simp
qed

lemma update_written:
  assumes av: "stringify h v = Some av"
    and path: "storedCount av r d t = Some c"
  shows "\<exists>b h'. updateAvailabilityAfterBooking host h v r d t k = Some (Inr (Ref b, h'))
           \<and> length h \<le> b
           \<and> take (length h) h' = h
           \<and> storedValue h' (Ref b) [r, d, t] =
               Some (Number (mathMax (Finite 0) (numSub (Finite (of_int c)) k)))"
proof -
  let ?P = "parseRestaurantProps av h"
  let ?c = "length (snd ?P)"
  let ?h1 = "snd ?P @ [fst ?P]"
  let ?x = "Number (mathMax (Finite 0) (numSub (Finite (of_int c)) k))"
  from path obtain dates slots where
    p: "map_of av r = Some dates" "map_of dates d = Some slots" "map_of slots t = Some c"
    by (auto simp: storedCount_def bind_eq_Some_conv)
  from parseRestaurantProps_extends[of av h] obtain ext where ext: "snd ?P = h @ ext" ..
  from update_found[OF av p, of host k] obtain a b where
    a: "length h \<le> a" "a < ?c" "b < ?c" "b \<noteq> a"
       "map_of (fst ?P) r = Some (Ref b)" "map_of (snd ?P ! b) d = Some (Ref a)"
       "updateAvailabilityAfterBooking host h v r d t k =
               Some (Inr (Ref ?c, ?h1[a := AList.update t ?x (countsObject slots)]))"
    by blast
  let ?h2 = "?h1[a := AList.update t ?x (countsObject slots)]"
  have "objectAt ?h2 (Ref ?c) = Some (fst ?P)"
    using a(2) by (simp add: objectAt_def nth_append)
  moreover have "objectAt ?h2 (Ref b) = Some (snd ?P ! b)"
    using a(3,4) by (simp add: objectAt_def nth_append)
  moreover have "objectAt ?h2 (Ref a) = Some (AList.update t ?x (countsObject slots))"
    using a(2) by (simp add: objectAt_def)
  ultimately have "storedValue ?h2 (Ref ?c) [r, d, t] = Some ?x"
    using a(5,6) by (simp add: update_Some_unfold map_of_eq_Some_iff AList.update_conv')
  moreover from a(1) have "take (length h) ?h2 = h" by (simp add: ext)
  moreover have "length h \<le> ?c" by (simp add: ext)
  ultimately show ?thesis
    using a(7) by (intro exI[of _ ?c] exI[of _ ?h2]) simp
qed


lemma map_map_entry:
  "(\<And>v. F (f v) = F v) \<Longrightarrow>
     map (\<lambda>(k, v). (k, F v)) (AList.map_entry k0 f xs) = map (\<lambda>(k, v). (k, F v)) xs"
  by (induction xs) auto

lemma map_fst_map_entry: "map fst (AList.map_entry k0 f xs) = map fst xs"
  by (induction xs) auto

lemma keysOf_decremented: "keysOf (decremented av r d t k) = keysOf av"
  unfolding keysOf_def decremented_def
  by (intro map_map_entry) (simp add: map_fst_map_entry)

lemma storedCount_decremented_target:
  "storedCount (decremented av r d t k) r d t = map_option (\<lambda>c. max 0 (c - k)) (storedCount av r d t)"
  by (simp add: storedCount_def decremented_def map_of_map_entry split: option.splits)

lemma storedCount_decremented_other:
  "(r', d', t') \<noteq> (r, d, t) \<Longrightarrow>
     storedCount (decremented av r d t k) r' d' t' = storedCount av r' d' t'"
  by (auto simp: storedCount_def decremented_def map_of_map_entry split: option.splits)

lemma mathMax_zero_toDouble:
  "mathMax (Finite 0) (toDouble y) \<noteq> NaN \<and> \<not> numLess (mathMax (Finite 0) (toDouble y)) (Finite 0)"
  by (cases "toDouble y") (auto simp: mathMax_def)

lemma example_stringify: "stringify exampleHeap exampleRoot = Some exampleAvailability"
  by (simp add: exampleHeap_def exampleRoot_def parse_roundtrip)

lemma example_counts:
  "storedCount exampleAvailability ''r1'' ''2025-11-03'' ''19:00'' = Some 2"
  "storedCount exampleAvailability ''r2'' ''2025-11-03'' ''19:00'' = Some 3"
  "storedCount exampleAvailability ''r1'' ''2025-11-04'' ''19:00'' = None"
  "storedCount exampleAvailability ''r1'' ''2025-11-03'' ''19:30'' = Some 1"
  "storedCount exampleAvailability ''r1'' ''2025-11-03'' ''toString'' = None"
  "storedCount exampleAvailability ''r1'' ''toString'' ''length'' = None"
  by (simp_all add: storedCount_def exampleAvailability_def)

text \<open>
  Claim C1, as amended. Let the caller's reference \<open>v\<close> denote the availability
  mapping \<open>av\<close> in the heap \<open>h\<close>. When the target key path exists with count \<open>c\<close>,
  for every integer decrement \<open>k\<close> (both doubles) whose difference \<open>c - k\<close> has
  magnitude at most \<open>2 ^ 53\<close>, \<open>updateAvailabilityAfterBooking\<close> returns a reference
  \<open>v'\<close> to a new object and a heap \<open>h'\<close> in which: every object of \<open>h\<close> is as it
  was, so \<open>v\<close> still denotes \<open>av\<close> (the caller's mapping is not mutated); \<open>v'\<close>
  denotes a mapping \<open>av'\<close> with the same keys at every level; the count of the target
  in \<open>av'\<close> is \<open>max 0 (c - k)\<close>; and every other entry of \<open>av'\<close> equals that of
  \<open>av\<close>. When the target key path does not exist and none of its three keys names an
  inherited property, the function returns, for every number \<open>n\<close>, a new object
  that denotes \<open>av\<close> again, and the caller's mapping is not mutated. For every number
  \<open>n\<close> at all and an existing key path the caller's mapping is not mutated, and the new
  mapping holds \<open>Math.max(0, c - n)\<close> in double arithmetic at the target.
\<close>

theorem updateAvailabilityAfterBooking_copy_on_write:
  assumes "stringify h v = Some av"
  shows "(\<forall>c. storedCount av r d t = Some c \<and> isDouble (of_int c) \<and> isDouble (of_int k)
              \<and> \<bar>c - k\<bar> \<le> 2 ^ 53 \<longrightarrow>
           (\<exists>v' h' av'.
              updateAvailabilityAfterBooking host h v r d t (Finite (of_int k)) = Some (Inr (v', h'))
            \<and> stringify h' v = Some av \<and> take (length h) h' = h \<and> v' \<noteq> v
            \<and> stringify h' v' = Some av'
            \<and> keysOf av' = keysOf av
            \<and> storedCount av' r d t = Some (max 0 (c - k))
            \<and> (\<forall>r' d' t'. (r', d', t') \<noteq> (r, d, t) \<longrightarrow>
                  storedCount av' r' d' t' = storedCount av r' d' t')))
       \<and> (storedCount av r d t = None \<and> inheritedProperty host r = Undefined
            \<and> inheritedProperty host d = Undefined \<and> inheritedProperty host t = Undefined \<longrightarrow>
           (\<exists>v' h'.
              updateAvailabilityAfterBooking host h v r d t n = Some (Inr (v', h'))
            \<and> stringify h' v = Some av \<and> take (length h) h' = h \<and> v' \<noteq> v
            \<and> stringify h' v' = Some av))
       \<and> (\<forall>c. storedCount av r d t = Some c \<longrightarrow>
           (\<exists>v' h'.
              updateAvailabilityAfterBooking host h v r d t n = Some (Inr (v', h'))
            \<and> stringify h' v = Some av \<and> take (length h) h' = h \<and> v' \<noteq> v
            \<and> storedValue h' v' [r, d, t] =
                 Some (Number (mathMax (Finite 0) (numSub (Finite (of_int c)) n)))))"
proof (intro conjI allI impI)
  fix c
  assume h: "storedCount av r d t = Some c \<and> isDouble (of_int c) \<and> isDouble (of_int k)
              \<and> \<bar>c - k\<bar> \<le> 2 ^ 53"
  then have path: "storedCount av r d t = Some c" and safe: "\<bar>c - k\<bar> \<le> 2 ^ 53" by simp_all
  from update_refines[OF assms path safe, of host] obtain b h' where
    u: "updateAvailabilityAfterBooking host h v r d t (Finite (of_int k)) = Some (Inr (Ref b, h'))"
       "length h \<le> b" "take (length h) h' = h"
       "stringify h' (Ref b) = Some (decremented av r d t k)"
    by blast
  from stringify_is_ref[OF assms] u(2) have fresh: "Ref b \<noteq> v" by auto
  from assms u(3) have kept: "stringify h' v = Some av" by (rule stringify_prefix)
  have target: "storedCount (decremented av r d t k) r d t = Some (max 0 (c - k))"
    by (simp add: storedCount_decremented_target path)
  have others: "\<forall>r' d' t'. (r', d', t') \<noteq> (r, d, t) \<longrightarrow>
               storedCount (decremented av r d t k) r' d' t' = storedCount av r' d' t'"
    using storedCount_decremented_other by blast
  show "\<exists>v' h' av'.
              updateAvailabilityAfterBooking host h v r d t (Finite (of_int k)) = Some (Inr (v', h'))
            \<and> stringify h' v = Some av \<and> take (length h) h' = h \<and> v' \<noteq> v
            \<and> stringify h' v' = Some av'
            \<and> keysOf av' = keysOf av
            \<and> storedCount av' r d t = Some (max 0 (c - k))
            \<and> (\<forall>r' d' t'. (r', d', t') \<noteq> (r, d, t) \<longrightarrow>
                  storedCount av' r' d' t' = storedCount av r' d' t')"
    using u(1) kept u(3) fresh u(4) keysOf_decremented[of av r d t k] target others
    by (intro exI[of _ "Ref b"] exI[of _ h'] exI[of _ "decremented av r d t k"] conjI) assumption+
next
  assume h: "storedCount av r d t = None \<and> inheritedProperty host r = Undefined
            \<and> inheritedProperty host d = Undefined \<and> inheritedProperty host t = Undefined"
  then have path: "storedCount av r d t = None"
    and f: "inheritedProperty host r = Undefined" "inheritedProperty host d = Undefined"
      "inheritedProperty host t = Undefined" by simp_all
  from update_unchanged[OF assms path f, of n] obtain b h' where
    u: "updateAvailabilityAfterBooking host h v r d t n = Some (Inr (Ref b, h'))"
       "length h \<le> b" "take (length h) h' = h" "stringify h' (Ref b) = Some av"
    by blast
  from stringify_is_ref[OF assms] u(2) have fresh: "Ref b \<noteq> v" by auto
  from assms u(3) have kept: "stringify h' v = Some av" by (rule stringify_prefix)
  show "\<exists>v' h'.
              updateAvailabilityAfterBooking host h v r d t n = Some (Inr (v', h'))
            \<and> stringify h' v = Some av \<and> take (length h) h' = h \<and> v' \<noteq> v
            \<and> stringify h' v' = Some av"
    using u(1) kept u(3) fresh u(4)
    by (intro exI[of _ "Ref b"] exI[of _ h'] conjI) assumption+
next
  fix c
  assume path: "storedCount av r d t = Some c"
  from update_written[OF assms path, of host n] obtain b h' where
    u: "updateAvailabilityAfterBooking host h v r d t n = Some (Inr (Ref b, h'))"
       "length h \<le> b" "take (length h) h' = h"
       "storedValue h' (Ref b) [r, d, t] =
               Some (Number (mathMax (Finite 0) (numSub (Finite (of_int c)) n)))"
    by blast
  from stringify_is_ref[OF assms] u(2) have fresh: "Ref b \<noteq> v" by auto
  from assms u(3) have kept: "stringify h' v = Some av" by (rule stringify_prefix)
  show "\<exists>v' h'.
              updateAvailabilityAfterBooking host h v r d t n = Some (Inr (v', h'))
            \<and> stringify h' v = Some av \<and> take (length h) h' = h \<and> v' \<noteq> v
            \<and> storedValue h' v' [r, d, t] =
                 Some (Number (mathMax (Finite 0) (numSub (Finite (of_int c)) n)))"
    using u(1) kept u(3) fresh u(4)
    by (intro exI[of _ "Ref b"] exI[of _ h'] conjI) assumption+
qed

theorem updateAvailabilityAfterBooking_copy_on_write_witness:
  "(\<exists>v' h' av'.
      updateAvailabilityAfterBooking exampleHost exampleHeap exampleRoot ''r1'' ''2025-11-03'' ''19:00'' (Finite 5)
        = Some (Inr (v', h'))
      \<and> stringify h' exampleRoot = Some exampleAvailability
      \<and> stringify h' v' = Some av'
      \<and> storedCount av' ''r1'' ''2025-11-03'' ''19:00'' = Some 0
      \<and> storedCount av' ''r2'' ''2025-11-03'' ''19:00'' = Some 3)
   \<and> (\<exists>v' h'.
      updateAvailabilityAfterBooking exampleHost exampleHeap exampleRoot ''r1'' ''2025-11-04'' ''19:00'' (Finite 1)
        = Some (Inr (v', h'))
      \<and> stringify h' v' = Some exampleAvailability)"
proof
  have safe: "storedCount exampleAvailability ''r1'' ''2025-11-03'' ''19:00'' = Some 2
      \<and> isDouble (of_int 2) \<and> isDouble (of_int 5) \<and> \<bar>2 - 5 :: int\<bar> \<le> 2 ^ 53"
    using isDouble_int[of 2] isDouble_int[of 5] by (simp add: example_counts)
  from updateAvailabilityAfterBooking_copy_on_write[OF example_stringify,
      of "''r1''" "''2025-11-03''" "''19:00''" 5 exampleHost "Finite 1",
      THEN conjunct1, rule_format, OF safe]
  show "\<exists>v' h' av'.
      updateAvailabilityAfterBooking exampleHost exampleHeap exampleRoot ''r1'' ''2025-11-03'' ''19:00'' (Finite 5)
        = Some (Inr (v', h'))
      \<and> stringify h' exampleRoot = Some exampleAvailability
      \<and> stringify h' v' = Some av'
      \<and> storedCount av' ''r1'' ''2025-11-03'' ''19:00'' = Some 0
      \<and> storedCount av' ''r2'' ''2025-11-03'' ''19:00'' = Some 3"
  proof (elim exE conjE)
    fix v' h' av'
    assume u: "updateAvailabilityAfterBooking exampleHost exampleHeap exampleRoot ''r1'' ''2025-11-03'' ''19:00''
                 (Finite (of_int 5)) = Some (Inr (v', h'))"
      "stringify h' exampleRoot = Some exampleAvailability" "stringify h' v' = Some av'"
    assume target: "storedCount av' ''r1'' ''2025-11-03'' ''19:00'' = Some (max 0 (2 - 5))"
    assume others: "\<forall>r' d' t'. (r', d', t') \<noteq> (''r1'', ''2025-11-03'', ''19:00'') \<longrightarrow>
               storedCount av' r' d' t' = storedCount exampleAvailability r' d' t'"
    from target have a: "storedCount av' ''r1'' ''2025-11-03'' ''19:00'' = Some 0"
      by simp
    from others[rule_format, of "''r2''" "''2025-11-03''" "''19:00''"] example_counts(2)
    have b: "storedCount av' ''r2'' ''2025-11-03'' ''19:00'' = Some 3"
      by simp
    from u(1) have u1: "updateAvailabilityAfterBooking exampleHost exampleHeap exampleRoot ''r1'' ''2025-11-03'' ''19:00''
                 (Finite 5) = Some (Inr (v', h'))" by simp
    from u1 u(2,3) a b show ?thesis
      by (intro exI[of _ v'] exI[of _ h'] exI[of _ av'] conjI)
  qed
next
  have missing: "storedCount exampleAvailability ''r1'' ''2025-11-04'' ''19:00'' = None
      \<and> inheritedProperty exampleHost ''r1'' = Undefined
      \<and> inheritedProperty exampleHost ''2025-11-04'' = Undefined
      \<and> inheritedProperty exampleHost ''19:00'' = Undefined"
    by (simp add: example_counts exampleHost_def exampleInherited_def exampleMethods_def)
  from updateAvailabilityAfterBooking_copy_on_write[OF example_stringify,
      of "''r1''" "''2025-11-04''" "''19:00''" 0 exampleHost "Finite 1",
      THEN conjunct2, THEN conjunct1, rule_format, OF missing]
  show "\<exists>v' h'.
      updateAvailabilityAfterBooking exampleHost exampleHeap exampleRoot ''r1'' ''2025-11-04'' ''19:00'' (Finite 1)
        = Some (Inr (v', h'))
      \<and> stringify h' v' = Some exampleAvailability"
  proof (elim exE conjE)
    fix v' h'
    assume u: "updateAvailabilityAfterBooking exampleHost exampleHeap exampleRoot ''r1'' ''2025-11-04'' ''19:00'' (Finite 1)
       = Some (Inr (v', h'))"
       "stringify h' v' = Some exampleAvailability"
    then show ?thesis
      by (intro exI[of _ v'] exI[of _ h'] conjI)
  qed
qed

text \<open>
  The claim as first stated fails in three ways, in a host with the standard
  \<open>Object.prototype\<close>. The time \<open>toString\<close> is no key of the date, yet the
  property read finds the inherited function, and the clone gets a new own property
  \<open>toString\<close> with the value \<open>NaN\<close> that the input does not have. For the keys
  \<open>r1\<close>, \<open>toString\<close>, \<open>length\<close>, no key path either, the write to the
  \<open>length\<close> of the inherited function throws a \<open>TypeError\<close>. And the count 1
  lowered by \<open>- 2 ^ 53\<close> is \<open>2 ^ 53\<close>, the double nearest to \<open>2 ^ 53 + 1\<close>.
\<close>

theorem updateAvailabilityAfterBooking_inherited_key:
  "map_option (map_sum id (\<lambda>(v', h'). storedValue h' v' [''r1'', ''2025-11-03'', ''toString'']))
      (updateAvailabilityAfterBooking exampleHost exampleHeap exampleRoot ''r1'' ''2025-11-03'' ''toString'' (Finite 1))
     = Some (Inr (Some (Number NaN)))
   \<and> storedCount exampleAvailability ''r1'' ''2025-11-03'' ''toString'' = None
   \<and> storedValue exampleHeap exampleRoot [''r1'', ''2025-11-03'', ''toString''] = None
   \<and> updateAvailabilityAfterBooking exampleHost exampleHeap exampleRoot ''r1'' ''toString'' ''length'' (Finite 1)
     = Some (Inl TypeError)
   \<and> storedCount exampleAvailability ''r1'' ''toString'' ''length'' = None
   \<and> map_option (map_sum id (\<lambda>(v', h'). storedValue h' v' [''r1'', ''2025-11-03'', ''19:30'']))
      (updateAvailabilityAfterBooking exampleHost exampleHeap exampleRoot ''r1'' ''2025-11-03'' ''19:30''
         (Finite (- 9007199254740992)))
     = Some (Inr (Some (Number (Finite 9007199254740992))))
   \<and> storedCount exampleAvailability ''r1'' ''2025-11-03'' ''19:30'' = Some 1
   \<and> max 0 (1 - (- 9007199254740992)) = (9007199254740993 :: int)"
proof (intro conjI)
  show "map_option (map_sum id (\<lambda>(v', h'). storedValue h' v' [''r1'', ''2025-11-03'', ''toString'']))
      (updateAvailabilityAfterBooking exampleHost exampleHeap exampleRoot ''r1'' ''2025-11-03'' ''toString'' (Finite 1))
     = Some (Inr (Some (Number NaN)))"
    by code_simp
  show "storedValue exampleHeap exampleRoot [''r1'', ''2025-11-03'', ''toString''] = None"
    by code_simp
  show "updateAvailabilityAfterBooking exampleHost exampleHeap exampleRoot ''r1'' ''toString'' ''length'' (Finite 1)
     = Some (Inl TypeError)"
    by code_simp
  have "toDouble 9007199254740993 = Finite 9007199254740992"
    by (rule toDouble_eval[where e = 53]) (simp_all add: roundHalfEven_def)
  then have n: "mathMax (Finite 0) (numSub (Finite (of_int 1)) (Finite (- 9007199254740992)))
      = Finite 9007199254740992"
    by (simp add: numSub_def mathMax_def)
  from update_written[OF example_stringify example_counts(4), of exampleHost "Finite (- 9007199254740992)"]
  show "map_option (map_sum id (\<lambda>(v', h'). storedValue h' v' [''r1'', ''2025-11-03'', ''19:30'']))
      (updateAvailabilityAfterBooking exampleHost exampleHeap exampleRoot ''r1'' ''2025-11-03'' ''19:30''
         (Finite (- 9007199254740992)))
     = Some (Inr (Some (Number (Finite 9007199254740992))))"
    unfolding n by auto
qed (simp_all add: example_counts)

text \<open>
  Claim C10, as amended. \<open>updateAvailabilityAfterBooking\<close> takes every integer
  \<open>k\<close> as \<open>tablesBooked\<close>, with no positivity check: for an existing target slot
  with count \<open>c\<close> (both doubles) the new count is the double nearest to \<open>c - k\<close>,
  floored at 0, and never negative. When \<open>c - k\<close> has magnitude at most \<open>2 ^ 53\<close>
  the new count is \<open>max 0 (c - k)\<close> exactly, and then a negative \<open>k\<close> (with a count
  \<open>c \<ge> 0\<close>, as every count of the data model is) raises the count to \<open>c + \<bar>k\<bar>\<close>.
\<close>

theorem updateAvailabilityAfterBooking_any_integer:
  assumes "stringify h v = Some av" "storedCount av r d t = Some c"
    "isDouble (of_int c)" "isDouble (of_int k)"
  shows "(\<exists>v' h' x.
            updateAvailabilityAfterBooking host h v r d t (Finite (of_int k)) = Some (Inr (v', h'))
          \<and> storedValue h' v' [r, d, t] = Some (Number x)
          \<and> x = mathMax (Finite 0) (toDouble (of_int (c - k)))
          \<and> x \<noteq> NaN \<and> \<not> numLess x (Finite 0))
       \<and> (\<bar>c - k\<bar> \<le> 2 ^ 53 \<longrightarrow>
           (\<exists>v' h' av'.
              updateAvailabilityAfterBooking host h v r d t (Finite (of_int k)) = Some (Inr (v', h'))
            \<and> stringify h' v' = Some av'
            \<and> storedCount av' r d t = Some (max 0 (c - k))
            \<and> 0 \<le> max 0 (c - k)
            \<and> (k < 0 \<and> 0 \<le> c \<longrightarrow> storedCount av' r d t = Some (c + \<bar>k\<bar>) \<and> c < c + \<bar>k\<bar>)))"
proof (intro conjI impI)
  let ?x = "mathMax (Finite 0) (toDouble (of_int (c - k)))"
  from update_written[OF assms(1,2), of host "Finite (of_int k)"] obtain b h' where
    u: "updateAvailabilityAfterBooking host h v r d t (Finite (of_int k)) = Some (Inr (Ref b, h'))"
       "storedValue h' (Ref b) [r, d, t] =
               Some (Number (mathMax (Finite 0) (numSub (Finite (of_int c)) (Finite (of_int k)))))"
    by blast
  have "numSub (Finite (of_int c)) (Finite (of_int k)) = toDouble (of_int (c - k))"
    by (simp add: numSub_def)
  with u(2) have w: "storedValue h' (Ref b) [r, d, t] = Some (Number ?x)" by simp
  from mathMax_zero_toDouble[of "of_int (c - k)"]
  have "?x \<noteq> NaN" "\<not> numLess ?x (Finite 0)" by simp_all
  with u(1) w show "\<exists>v' h' x.
            updateAvailabilityAfterBooking host h v r d t (Finite (of_int k)) = Some (Inr (v', h'))
          \<and> storedValue h' v' [r, d, t] = Some (Number x)
          \<and> x = mathMax (Finite 0) (toDouble (of_int (c - k)))
          \<and> x \<noteq> NaN \<and> \<not> numLess x (Finite 0)"
    by (intro exI[of _ "Ref b"] exI[of _ h'] exI[of _ ?x] conjI) simp_all
next
  assume safe: "\<bar>c - k\<bar> \<le> 2 ^ 53"
  from update_refines[OF assms(1,2) safe, of host] obtain b h' where
    u: "updateAvailabilityAfterBooking host h v r d t (Finite (of_int k)) = Some (Inr (Ref b, h'))"
       "stringify h' (Ref b) = Some (decremented av r d t k)"
    by blast
  have target: "storedCount (decremented av r d t k) r d t = Some (max 0 (c - k))"
    by (simp add: storedCount_decremented_target assms(2))
  have "k < 0 \<and> 0 \<le> c \<longrightarrow> max 0 (c - k) = c + \<bar>k\<bar> \<and> c < c + \<bar>k\<bar>"
    by auto
  with target have negative: "k < 0 \<and> 0 \<le> c \<longrightarrow>
      storedCount (decremented av r d t k) r d t = Some (c + \<bar>k\<bar>) \<and> c < c + \<bar>k\<bar>"
    by simp
  have nonneg: "0 \<le> max 0 (c - k)" by simp
  show "\<exists>v' h' av'.
              updateAvailabilityAfterBooking host h v r d t (Finite (of_int k)) = Some (Inr (v', h'))
            \<and> stringify h' v' = Some av'
            \<and> storedCount av' r d t = Some (max 0 (c - k))
            \<and> 0 \<le> max 0 (c - k)
            \<and> (k < 0 \<and> 0 \<le> c \<longrightarrow> storedCount av' r d t = Some (c + \<bar>k\<bar>) \<and> c < c + \<bar>k\<bar>)"
    using u target nonneg negative
    by (intro exI[of _ "Ref b"] exI[of _ h'] exI[of _ "decremented av r d t k"] conjI) assumption+
qed

theorem updateAvailabilityAfterBooking_any_integer_witness:
  "\<exists>v' h' av'.
      updateAvailabilityAfterBooking exampleHost exampleHeap exampleRoot ''r1'' ''2025-11-03'' ''19:00'' (Finite (- 3))
        = Some (Inr (v', h'))
      \<and> stringify h' v' = Some av'
      \<and> storedCount av' ''r1'' ''2025-11-03'' ''19:00'' = Some 5"
proof -
  have d: "isDouble (of_int 2)" "isDouble (of_int (- 3))"
    using isDouble_int[of 2] isDouble_int[of "- 3"] by simp_all
  have safe: "\<bar>2 - (- 3) :: int\<bar> \<le> 2 ^ 53" by simp
  from updateAvailabilityAfterBooking_any_integer[OF example_stringify example_counts(1) d,
      of exampleHost, THEN conjunct2, rule_format, OF safe]
  show ?thesis
  proof (elim exE conjE)
    fix v' h' av'
    assume u: "updateAvailabilityAfterBooking exampleHost exampleHeap exampleRoot ''r1'' ''2025-11-03'' ''19:00''
                 (Finite (of_int (- 3))) = Some (Inr (v', h'))"
      "stringify h' v' = Some av'"
    assume "(- 3 :: int) < 0 \<and> (0::int) \<le> 2 \<longrightarrow>
        storedCount av' ''r1'' ''2025-11-03'' ''19:00'' = Some (2 + \<bar>- 3\<bar>) \<and> (2::int) < 2 + \<bar>- 3\<bar>"
    then have c: "storedCount av' ''r1'' ''2025-11-03'' ''19:00'' = Some 5" by simp
    from u(1) have "updateAvailabilityAfterBooking exampleHost exampleHeap exampleRoot ''r1'' ''2025-11-03'' ''19:00''
                 (Finite (- 3)) = Some (Inr (v', h'))" by simp
    with u(2) c show ?thesis
      by (intro exI[of _ v'] exI[of _ h'] exI[of _ av'] conjI)
  qed
qed

text \<open>
  The claim as first stated fails beyond \<open>2 ^ 53\<close>: the count 2 lowered by
  \<open>- (2 ^ 53 - 1)\<close> becomes \<open>2 ^ 53\<close>, not \<open>2 ^ 53 + 1\<close>, which no double is.
\<close>

theorem updateAvailabilityAfterBooking_rounds:
  "map_option (map_sum id (\<lambda>(v', h'). storedValue h' v' [''r1'', ''2025-11-03'', ''19:00'']))
      (updateAvailabilityAfterBooking exampleHost exampleHeap exampleRoot ''r1'' ''2025-11-03'' ''19:00''
         (Finite (- 9007199254740991)))
     = Some (Inr (Some (Number (Finite 9007199254740992))))
   \<and> storedCount exampleAvailability ''r1'' ''2025-11-03'' ''19:00'' = Some 2
   \<and> max 0 (2 - (- 9007199254740991)) = (9007199254740993 :: int)
   \<and> isDouble 2 \<and> isDouble (- 9007199254740991)"
proof (intro conjI)
  have "toDouble 9007199254740993 = Finite 9007199254740992"
    by (rule toDouble_eval[where e = 53]) (simp_all add: roundHalfEven_def)
  then have n: "mathMax (Finite 0) (numSub (Finite (of_int 2)) (Finite (- 9007199254740991)))
      = Finite 9007199254740992"
    by (simp add: numSub_def mathMax_def)
  from update_written[OF example_stringify example_counts(1), of exampleHost "Finite (- 9007199254740991)"]
  show "map_option (map_sum id (\<lambda>(v', h'). storedValue h' v' [''r1'', ''2025-11-03'', ''19:00'']))
      (updateAvailabilityAfterBooking exampleHost exampleHeap exampleRoot ''r1'' ''2025-11-03'' ''19:00''
         (Finite (- 9007199254740991)))
     = Some (Inr (Some (Number (Finite 9007199254740992))))"
    unfolding n by auto
  show "isDouble 2" using isDouble_int[of 2] by simp
  show "isDouble (- 9007199254740991)" using isDouble_int[of "- 9007199254740991"] by simp
qed (simp_all add: example_counts)

section \<open>Properties of the generator\<close>
















lemma generateAvailability_example:
  "generateAvailability (\<lambda>k. ''2025-11-03'') (\<lambda>k. 1) (\<lambda>i. 1 / 2) [''r1''] 1 =
     [(''r1'', [(''2025-11-03'',
        [(''11:30'', 4), (''12:00'', 4), (''12:30'', 4), (''13:00'', 4), (''13:30'', 4), (''14:00'', 4),
         (''17:00'', 5), (''17:30'', 5), (''18:00'', 2), (''18:30'', 2), (''19:00'', 1), (''19:30'', 1),
         (''20:00'', 1), (''20:30'', 1), (''21:00'', 2), (''21:30'', 2), (''22:00'', 5)])])]"
  by (simp add: generateAvailability_def fillRestaurant_def fillDay_def fillSlot_def timeSlots_def
      slotTables_def hourOf_def parseInt_def isDigit_def decimal_def digitValue_def
      numLt_def numGe_def numEq_def Let_def)




end
